theory Spec2Isabelle
  imports Complex_Main "HOL-Library.Word"
begin

section \<open>Near-field orientation indexing: the grand loop of new\_simulate\_nf.py\<close>

text \<open>
  The definitions follow \<^verbatim>\<open>scripts/new_simulate_nf.py\<close> and
  \<^verbatim>\<open>hexrd/transforms/xf_numba.py\<close>. Array lengths and loop counters are naturals,
  quantized indices (which may be negative) are integers. The floating-point arithmetic of
  the quantizer is a parameter of the model, so that what is proved of the quantizer holds
  for the doubles of the machine; an instance for IEEE doubles evaluates it on concrete
  inputs. Every exception of the source is a value of \<open>error\<close>.
\<close>

subsection \<open>Errors\<close>

datatype error =
    ZeroDivisionError
  | IndexError
  | AttributeError
  | UnboundLocalError
  | ValueError
  | AssertionError
  | ExternalError

text \<open>Sequencing: the first error ends the computation.\<close>

definition then_do :: "error + 'a \<Rightarrow> ('a \<Rightarrow> error + 'b) \<Rightarrow> error + 'b" where
  "then_do r f = (case r of Inl e \<Rightarrow> Inl e | Inr v \<Rightarrow> f v)"

subsection \<open>Chunking of the voxel axis\<close>

text \<open>
  \<^verbatim>\<open>xrange(start, stop, step)\<close> for a positive step; a step of zero raises
  \<^verbatim>\<open>ValueError\<close> in Python, which \<open>chunks_of\<close> below reports.
\<close>

function xrange3 :: "nat \<Rightarrow> nat \<Rightarrow> nat \<Rightarrow> nat list" where
  "xrange3 start stop step =
     (if step = 0 \<or> stop \<le> start then [] else start # xrange3 (start + step) stop step)"
  by pat_completeness auto
termination
  by (relation "measure (\<lambda>(start, stop, step). stop - start)") auto

declare xrange3.simps [simp del]

text \<open>\<^verbatim>\<open>chunks = xrange(0, n_coords, chunk_size)\<close> in \<^verbatim>\<open>_grand_loop_precomp\<close>.\<close>

definition chunks_of :: "nat \<Rightarrow> nat \<Rightarrow> error + nat list" where
  "chunks_of n_coords chunk_size =
     (if chunk_size = 0 then Inl ValueError else Inr (xrange3 0 n_coords chunk_size))"

text \<open>
  The serial branch of \<^verbatim>\<open>_grand_loop_precomp\<close>:
  \<^verbatim>\<open>chunk_stop = min(n_coords, chunk_start+chunk_size)\<close>.
\<close>

definition serial_chunk_stop :: "nat \<Rightarrow> nat \<Rightarrow> nat \<Rightarrow> nat" where
  "serial_chunk_stop n_coords chunk_size chunk_start = min n_coords (chunk_start + chunk_size)"

text \<open>
  \<^verbatim>\<open>multiproc_inner_loop\<close>: \<^verbatim>\<open>n_coords = len(_mp_state[4])\<close> is the length of the
  coordinate array, and \<^verbatim>\<open>chunk_stop = min(n_coords, chunk+chunk_size)\<close>.
\<close>

definition multiproc_chunk_stop :: "nat \<Rightarrow> nat \<Rightarrow> nat \<Rightarrow> nat" where
  "multiproc_chunk_stop len_coords chunk_size chunk = min len_coords (chunk + chunk_size)"

text \<open>The voxel indices one chunk visits: \<^verbatim>\<open>xrange(start, stop)\<close>.\<close>

definition chunk_range :: "nat \<Rightarrow> nat \<Rightarrow> nat list" where
  "chunk_range start stop = [start ..< stop]"

definition serial_ranges :: "nat \<Rightarrow> nat \<Rightarrow> nat list list" where
  "serial_ranges n_coords chunk_size =
     map (\<lambda>s. chunk_range s (serial_chunk_stop n_coords chunk_size s))
         (xrange3 0 n_coords chunk_size)"

definition multiproc_ranges :: "nat \<Rightarrow> nat \<Rightarrow> nat \<Rightarrow> nat list list" where
  "multiproc_ranges len_coords n_coords chunk_size =
     map (\<lambda>s. chunk_range s (multiproc_chunk_stop len_coords chunk_size s))
         (xrange3 0 n_coords chunk_size)"

subsection \<open>Floating-point arithmetic\<close>

text \<open>
  The three operations on floats that the quantizer uses: subtraction, multiplication and
  \<^verbatim>\<open>int(np.floor(v))\<close>, with the rounding, the special values and the conversion to a
  64-bit integer that the machine gives them. \<open>'f\<close> is the type of a float.
\<close>

record 'f arith =
  fsub :: "'f \<Rightarrow> 'f \<Rightarrow> 'f"
  fmul :: "'f \<Rightarrow> 'f \<Rightarrow> 'f"
  floor_int :: "'f \<Rightarrow> int"

text \<open>
  Finite IEEE doubles, for concrete inputs: \<open>(m, e)\<close> is the number \<open>m * 2 ^ e\<close>, and
  every result is rounded to 53 significant bits, to nearest with ties to even. Infinities,
  NaN, overflow and subnormal results are not represented. \<open>dfloor_int\<close> converts as
  x86-64 does: a floor outside the 64-bit range becomes \<open>- 2 ^ 63\<close>.
\<close>

type_synonym double = "int \<times> int"

fun bitlen :: "nat \<Rightarrow> nat" where
  "bitlen n = (if n = 0 then 0 else Suc (bitlen (n div 2)))"

declare bitlen.simps [simp del]

definition round53 :: "int \<Rightarrow> int \<Rightarrow> double" where
  "round53 m e =
     (if bitlen (nat \<bar>m\<bar>) \<le> 53 then (m, e)
      else
        (let k = bitlen (nat \<bar>m\<bar>) - 53;
             q = \<bar>m\<bar> div 2 ^ k;
             r = \<bar>m\<bar> mod 2 ^ k
         in (sgn m * (if 2 * r > 2 ^ k \<or> (2 * r = 2 ^ k \<and> odd q) then q + 1 else q),
             e + int k)))"

definition dsub :: "double \<Rightarrow> double \<Rightarrow> double" where
  "dsub a b =
     (let e = min (snd a) (snd b)
      in round53 (fst a * 2 ^ nat (snd a - e) - fst b * 2 ^ nat (snd b - e)) e)"

definition dmul :: "double \<Rightarrow> double \<Rightarrow> double" where
  "dmul a b = round53 (fst a * fst b) (snd a + snd b)"

definition dfloor_int :: "double \<Rightarrow> int" where
  "dfloor_int a =
     (let v = (if 0 \<le> snd a then fst a * 2 ^ nat (snd a) else fst a div 2 ^ nat (- snd a))
      in if - (2 ^ 63) \<le> v \<and> v < 2 ^ 63 then v else - (2 ^ 63))"

definition ieee :: "double arith" where
  "ieee = \<lparr>fsub = dsub, fmul = dmul, floor_int = dfloor_int\<rparr>"

subsection \<open>Array indexing in compiled code\<close>

text \<open>
  The functions under \<^verbatim>\<open>numba.njit\<close> index their arrays without a bounds check: an
  access never raises. A negative index is wrapped once (the length of the axis is added),
  the address is computed from the indices, and the access takes place there, inside the
  array or not. \<open>memory\<close> says what such a read finds outside the arrays:
  \<open>voxel_outside\<close> at an offset outside the image volume, \<open>angle_outside\<close> at an index
  outside the array of angles.
\<close>

record 'f memory =
  voxel_outside :: "int \<Rightarrow> bool"
  angle_outside :: "nat \<Rightarrow> 'f"

definition wraparound :: "int \<Rightarrow> nat \<Rightarrow> int" where
  "wraparound i n = (if i < 0 then i + int n else i)"

text \<open>
  The image volume, indexed \<^verbatim>\<open>[frame, row, column]\<close>: a list of frames of equal shape.
  It is stored row by row, frame after frame (C order, as \<^verbatim>\<open>np.zeros\<close>,
  \<^verbatim>\<open>np.empty_like\<close> and a loaded stack are), so the element \<^verbatim>\<open>[z, y, x]\<close> lies at
  the offset \<open>(z * rows + y) * columns + x\<close>, which the machine computes in 64-bit
  integers (\<open>int64\<close>).
\<close>

type_synonym volume = "bool list list list"

definition frames_of :: "volume \<Rightarrow> nat" where
  "frames_of img = length img"

definition rows_of :: "volume \<Rightarrow> nat" where
  "rows_of img = (case img of [] \<Rightarrow> 0 | frame # _ \<Rightarrow> length frame)"

definition columns_of :: "volume \<Rightarrow> nat" where
  "columns_of img =
     (case img of [] \<Rightarrow> 0 | frame # _ \<Rightarrow> (case frame of [] \<Rightarrow> 0 | row # _ \<Rightarrow> length row))"

definition int64 :: "int \<Rightarrow> int" where
  "int64 v = sint (word_of_int v :: 64 word)"

definition offset :: "volume \<Rightarrow> int \<Rightarrow> int \<Rightarrow> int \<Rightarrow> int" where
  "offset img z y x =
     int64 ((wraparound z (frames_of img) * int (rows_of img) + wraparound y (rows_of img))
              * int (columns_of img)
            + wraparound x (columns_of img))"

definition inside :: "volume \<Rightarrow> int \<Rightarrow> bool" where
  "inside img off = (0 \<le> off \<and> off < int (frames_of img * rows_of img * columns_of img))"

text \<open>The voxel at an offset inside the volume.\<close>

definition voxel_at :: "volume \<Rightarrow> int \<Rightarrow> bool" where
  "voxel_at img off =
     img ! nat (off div int (rows_of img * columns_of img))
         ! nat ((off div int (columns_of img)) mod int (rows_of img))
         ! nat (off mod int (columns_of img))"

text \<open>\<^verbatim>\<open>image[z, y, x]\<close> as a value\<close>

definition image_get :: "'f memory \<Rightarrow> volume \<Rightarrow> int \<Rightarrow> int \<Rightarrow> int \<Rightarrow> bool" where
  "image_get mem img z y x =
     (if inside img (offset img z y x) then voxel_at img (offset img z y x)
      else voxel_outside mem (offset img z y x))"

text \<open>
  \<^verbatim>\<open>image[z, y, x] = True\<close>: at an offset outside the volume the store changes memory
  that is not part of the volume, and the volume stays as it is.
\<close>

definition image_set_True :: "volume \<Rightarrow> int \<Rightarrow> int \<Rightarrow> int \<Rightarrow> volume" where
  "image_set_True img z y x =
     (if inside img (offset img z y x)
      then
        (let f = nat (offset img z y x div int (rows_of img * columns_of img));
             r = nat ((offset img z y x div int (columns_of img)) mod int (rows_of img));
             c = nat (offset img z y x mod int (columns_of img))
         in img[f := (img ! f)[r := (img ! f ! r)[c := True]]])
      else img)"

text \<open>\<^verbatim>\<open>angles[i]\<close> as a value\<close>

definition angle_at :: "'f memory \<Rightarrow> 'f list \<Rightarrow> nat \<Rightarrow> 'f" where
  "angle_at mem angles i = (if i < length angles then angles ! i else angle_outside mem i)"

subsection \<open>Quantizer\<close>

text \<open>
  \<^verbatim>\<open>base\<close> and \<^verbatim>\<open>inv_deltas\<close> are arrays of three floats, \<^verbatim>\<open>clip_vals\<close> an array of
  two integers; \<open>at0\<close>, \<open>at1\<close>, \<open>at2\<close> read the entries of a triple.
\<close>

definition at0 :: "'a \<times> 'a \<times> 'a \<Rightarrow> 'a" where "at0 v = fst v"
definition at1 :: "'a \<times> 'a \<times> 'a \<Rightarrow> 'a" where "at1 v = fst (snd v)"
definition at2 :: "'a \<times> 'a \<times> 'a \<Rightarrow> 'a" where "at2 v = snd (snd v)"

text \<open>\<^verbatim>\<open>int(np.floor((v - base[k]) * inv_deltas[k]))\<close>\<close>

definition quant :: "'f arith \<Rightarrow> 'f \<Rightarrow> 'f \<Rightarrow> 'f \<Rightarrow> int" where
  "quant ar v b inv_delta = floor_int ar (fmul ar (fsub ar v b) inv_delta)"

text \<open>A value stored into an array of \<^verbatim>\<open>dtype=np.int32\<close> keeps its low 32 bits, signed.\<close>

definition int32 :: "int \<Rightarrow> int" where
  "int32 v = sint (word_of_int v :: 32 word)"

text \<open>
  The loop of \<^verbatim>\<open>_quant_and_clip\<close>: the rows of \<^verbatim>\<open>coords\<close> from the loop index \<open>i\<close>
  on, and the state \<^verbatim>\<open>(curr, a)\<close>.
\<close>

fun quant_and_clip_loop ::
  "'f arith \<Rightarrow> 'f memory \<Rightarrow> ('f \<times> 'f) list \<Rightarrow> nat \<Rightarrow> 'f list \<Rightarrow> 'f \<times> 'f \<times> 'f \<Rightarrow>
   'f \<times> 'f \<times> 'f \<Rightarrow> int \<times> int \<Rightarrow> nat \<times> (int \<times> int \<times> int) list \<Rightarrow>
   nat \<times> (int \<times> int \<times> int) list" where
  "quant_and_clip_loop ar mem [] i angles base inv_deltas clip_vals st = st"
| "quant_and_clip_loop ar mem (p # coords) i angles base inv_deltas clip_vals st =
     (if quant ar (fst p) (at0 base) (at0 inv_deltas) < 0
         \<or> quant ar (fst p) (at0 base) (at0 inv_deltas) \<ge> fst clip_vals
      then quant_and_clip_loop ar mem coords (Suc i) angles base inv_deltas clip_vals st
      else if quant ar (snd p) (at1 base) (at1 inv_deltas) < 0
         \<or> quant ar (snd p) (at1 base) (at1 inv_deltas) \<ge> snd clip_vals
      then quant_and_clip_loop ar mem coords (Suc i) angles base inv_deltas clip_vals st
      else quant_and_clip_loop ar mem coords (Suc i) angles base inv_deltas clip_vals
             (Suc (fst st),
              (snd st)[fst st :=
                 (int32 (quant ar (fst p) (at0 base) (at0 inv_deltas)),
                  int32 (quant ar (snd p) (at1 base) (at1 inv_deltas)),
                  int32 (quant ar (angle_at mem angles i) (at2 base) (at2 inv_deltas)))]))"

text \<open>
  \<^verbatim>\<open>_quant_and_clip\<close>: \<^verbatim>\<open>a = np.zeros((count, 3), dtype=np.int32)\<close>, the loop, and
  \<^verbatim>\<open>return a[:curr,:]\<close>.
\<close>

definition quant_and_clip ::
  "'f arith \<Rightarrow> 'f memory \<Rightarrow> ('f \<times> 'f) list \<Rightarrow> 'f list \<Rightarrow> 'f \<times> 'f \<times> 'f \<Rightarrow> 'f \<times> 'f \<times> 'f \<Rightarrow>
   int \<times> int \<Rightarrow> (int \<times> int \<times> int) list" where
  "quant_and_clip ar mem coords angles base inv_deltas clip_vals =
     (case quant_and_clip_loop ar mem coords 0 angles base inv_deltas clip_vals
             (0, replicate (length coords) (0, 0, 0)) of
        (cur, a) \<Rightarrow> take cur a)"

text \<open>The loop of \<^verbatim>\<open>_quant_and_clip_confidence\<close>; the state is \<^verbatim>\<open>(in_sensor, matches)\<close>.\<close>

fun quant_and_clip_confidence_loop ::
  "'f arith \<Rightarrow> 'f memory \<Rightarrow> ('f \<times> 'f) list \<Rightarrow> nat \<Rightarrow> 'f list \<Rightarrow> volume \<Rightarrow> 'f \<times> 'f \<times> 'f \<Rightarrow>
   'f \<times> 'f \<times> 'f \<Rightarrow> int \<times> int \<Rightarrow> nat \<times> nat \<Rightarrow> nat \<times> nat" where
  "quant_and_clip_confidence_loop ar mem [] i angles img base inv_deltas clip_vals st = st"
| "quant_and_clip_confidence_loop ar mem (p # coords) i angles img base inv_deltas clip_vals st =
     (if quant ar (fst p) (at0 base) (at0 inv_deltas) < 0
         \<or> quant ar (fst p) (at0 base) (at0 inv_deltas) \<ge> fst clip_vals
      then quant_and_clip_confidence_loop ar mem coords (Suc i) angles img base inv_deltas
             clip_vals st
      else if quant ar (snd p) (at1 base) (at1 inv_deltas) < 0
         \<or> quant ar (snd p) (at1 base) (at1 inv_deltas) \<ge> snd clip_vals
      then quant_and_clip_confidence_loop ar mem coords (Suc i) angles img base inv_deltas
             clip_vals st
      else quant_and_clip_confidence_loop ar mem coords (Suc i) angles img base inv_deltas
             clip_vals
             (Suc (fst st),
              snd st +
                (if image_get mem img
                      (quant ar (angle_at mem angles i) (at2 base) (at2 inv_deltas))
                      (quant ar (snd p) (at1 base) (at1 inv_deltas))
                      (quant ar (fst p) (at0 base) (at0 inv_deltas))
                 then 1 else 0)))"

text \<open>
  \<^verbatim>\<open>_quant_and_clip_confidence\<close>: the loop from \<^verbatim>\<open>in_sensor = 0\<close>,
  \<^verbatim>\<open>matches = 0\<close> and \<^verbatim>\<open>return float(matches)/float(in_sensor)\<close>; numba's default
  error model is Python's, a division by zero raises \<^verbatim>\<open>ZeroDivisionError\<close>. The value
  returned is the quotient of the two counters as a real number; the double that the
  division yields is the one nearest to it, which lies between 0 and 1 whenever the
  quotient does.
\<close>

definition quant_and_clip_confidence ::
  "'f arith \<Rightarrow> 'f memory \<Rightarrow> ('f \<times> 'f) list \<Rightarrow> 'f list \<Rightarrow> volume \<Rightarrow> 'f \<times> 'f \<times> 'f \<Rightarrow>
   'f \<times> 'f \<times> 'f \<Rightarrow> int \<times> int \<Rightarrow> error + real" where
  "quant_and_clip_confidence ar mem coords angles img base inv_deltas clip_vals =
     (case quant_and_clip_confidence_loop ar mem coords 0 angles img base inv_deltas clip_vals
             (0, 0) of
        (in_sensor, matches) \<Rightarrow>
          if in_sensor = 0 then Inl ZeroDivisionError
          else Inr (real matches / real in_sensor))"

text \<open>The loop of \<^verbatim>\<open>_write_pixels\<close>; the state is the image being written.\<close>

fun write_pixels_loop ::
  "'f arith \<Rightarrow> 'f memory \<Rightarrow> ('f \<times> 'f) list \<Rightarrow> nat \<Rightarrow> 'f list \<Rightarrow> volume \<Rightarrow> 'f \<times> 'f \<times> 'f \<Rightarrow>
   'f \<times> 'f \<times> 'f \<Rightarrow> int \<times> int \<Rightarrow> volume" where
  "write_pixels_loop ar mem [] i angles img base inv_deltas clip_vals = img"
| "write_pixels_loop ar mem (p # coords) i angles img base inv_deltas clip_vals =
     (if quant ar (fst p) (at0 base) (at0 inv_deltas) < 0
         \<or> quant ar (fst p) (at0 base) (at0 inv_deltas) \<ge> fst clip_vals
      then write_pixels_loop ar mem coords (Suc i) angles img base inv_deltas clip_vals
      else if quant ar (snd p) (at1 base) (at1 inv_deltas) < 0
         \<or> quant ar (snd p) (at1 base) (at1 inv_deltas) \<ge> snd clip_vals
      then write_pixels_loop ar mem coords (Suc i) angles img base inv_deltas clip_vals
      else write_pixels_loop ar mem coords (Suc i) angles
             (image_set_True img
                (quant ar (angle_at mem angles i) (at2 base) (at2 inv_deltas))
                (quant ar (snd p) (at1 base) (at1 inv_deltas))
                (quant ar (fst p) (at0 base) (at0 inv_deltas)))
             base inv_deltas clip_vals)"

definition write_pixels ::
  "'f arith \<Rightarrow> 'f memory \<Rightarrow> ('f \<times> 'f) list \<Rightarrow> 'f list \<Rightarrow> volume \<Rightarrow> 'f \<times> 'f \<times> 'f \<Rightarrow>
   'f \<times> 'f \<times> 'f \<Rightarrow> int \<times> int \<Rightarrow> volume" where
  "write_pixels ar mem coords angles img base inv_deltas clip_vals =
     write_pixels_loop ar mem coords 0 angles img base inv_deltas clip_vals"

subsection \<open>Experiment and controller\<close>

text \<open>
  The fields of the experiment namespace that the modelled functions read. Rotation
  matrices, translations and plane data only pass through to the projection functions of
  \<^verbatim>\<open>hexrd.xrd\<close>, which are parameters of the model; \<open>'r\<close> is the type of a crystal
  rotation matrix.
\<close>

record ('f, 'r) nf_experiment =
  n_grains :: nat
  rMat_c :: "'r list"
  nframes :: nat
  nrows :: nat
  ncols :: nat
  exp_base :: "'f \<times> 'f \<times> 'f"
  exp_inv_deltas :: "'f \<times> 'f \<times> 'f"
  exp_clip_vals :: "int \<times> int"
  row_dilation :: nat
  col_dilation :: nat

text \<open>
  The fields \<open>exp_base\<close>, \<open>exp_inv_deltas\<close> and \<open>exp_clip_vals\<close> are
  \<^verbatim>\<open>experiment.base\<close>, \<^verbatim>\<open>experiment.inv_deltas\<close> and \<^verbatim>\<open>experiment.clip_vals\<close>.
\<close>

text \<open>
  \<^verbatim>\<open>ProcessController\<close>. A call of one of its methods \<^verbatim>\<open>start\<close>, \<^verbatim>\<open>update\<close>,
  \<^verbatim>\<open>finish\<close> and \<^verbatim>\<open>handle_result\<close> first goes to the progress observer
  \<^verbatim>\<open>self.po\<close> or to the result handler \<^verbatim>\<open>self.rh\<close>. These two objects are supplied
  by the caller: \<open>po_rh\<close> is their state and \<open>delegate\<close> what they do on a call, which may
  be to raise. \<open>timing\<close> is the stack \<^verbatim>\<open>self.timing\<close> of \<^verbatim>\<open>(name, count)\<close> (the time
  stamp is left out), \<open>limit_coords\<close> is \<^verbatim>\<open>limit('coords', _)\<close>, which catches what
  the limit function raises. The chunk size and the process count are fields, so that a
  controller with other values than the 100 and 8 of \<^verbatim>\<open>ProcessController\<close> is covered.
  The argument \<^verbatim>\<open>controller\<close> of the functions below may also be \<^verbatim>\<open>None\<close>, on which
  every method call raises \<^verbatim>\<open>AttributeError\<close>.
\<close>

datatype call = Start string nat | Update nat | Finish string | Handle_result string

record 'o controller =
  po_rh :: 'o
  delegate :: "'o \<Rightarrow> call \<Rightarrow> error + 'o"
  timing :: "(string \<times> nat) list"
  limit_coords :: "nat \<Rightarrow> nat"
  get_chunk_size :: nat
  get_process_count :: nat

text \<open>
  A method call on \<^verbatim>\<open>controller\<close>. \<^verbatim>\<open>start\<close> pushes \<^verbatim>\<open>(name, count)\<close>;
  \<^verbatim>\<open>finish\<close> pops the last entry (\<^verbatim>\<open>IndexError\<close> on an empty list), asserts that it
  has the name given, and divides the elapsed time by its count for the log message, which
  raises \<^verbatim>\<open>ZeroDivisionError\<close> when the count is 0.
\<close>

definition invoke :: "'o controller option \<Rightarrow> call \<Rightarrow> error + 'o controller option" where
  "invoke ctl c =
     (case ctl of
        None \<Rightarrow> Inl AttributeError
      | Some k \<Rightarrow>
          then_do (delegate k (po_rh k) c) (\<lambda>ob.
          (case c of
             Start name count \<Rightarrow>
               Inr (Some (k\<lparr>po_rh := ob, timing := timing k @ [(name, count)]\<rparr>))
           | Update v \<Rightarrow> Inr (Some (k\<lparr>po_rh := ob\<rparr>))
           | Finish name \<Rightarrow>
               (if timing k = [] then Inl IndexError
                else if name \<noteq> fst (last (timing k)) then Inl AssertionError
                else if snd (last (timing k)) = 0 then Inl ZeroDivisionError
                else Inr (Some (k\<lparr>po_rh := ob, timing := butlast (timing k)\<rparr>)))
           | Handle_result key \<Rightarrow> Inr (Some (k\<lparr>po_rh := ob\<rparr>)))))"

text \<open>
  An observer and handler that never raise and whose state is the list of the calls that
  reached them.
\<close>

definition recording :: "call list \<Rightarrow> call \<Rightarrow> error + call list" where
  "recording seen c = Inr (seen @ [c])"

subsection \<open>Diffraction simulation\<close>

text \<open>
  The loop of \<^verbatim>\<open>simulate_diffractions\<close>. For grain \<open>i\<close> the functions of
  \<^verbatim>\<open>xfcapi\<close> and \<^verbatim>\<open>xrdutil\<close> give the detector coordinates and the omega angles of
  its reflections; \<open>reflections\<close> stands for that computation. The state is the image
  stack, the controller and the loop index.
\<close>

fun simulate_loop ::
  "'f arith \<Rightarrow> 'f memory \<Rightarrow> ('g \<Rightarrow> ('f \<times> 'f) list \<times> 'f list) \<Rightarrow> 'g list \<Rightarrow>
   ('f, 'r) nf_experiment \<Rightarrow> volume \<Rightarrow> 'o controller option \<Rightarrow> nat \<Rightarrow>
   error + volume \<times> 'o controller option" where
  "simulate_loop ar mem reflections [] exper image_stack ctl i = Inr (image_stack, ctl)"
| "simulate_loop ar mem reflections (g # grain_params) exper image_stack ctl i =
     (let image_stack' =
            write_pixels ar mem (fst (reflections g)) (snd (reflections g)) image_stack
              (exp_base exper) (exp_inv_deltas exper) (exp_clip_vals exper)
      in case invoke ctl (Update (i + 1)) of
           Inl e \<Rightarrow> Inl e
         | Inr ctl' \<Rightarrow>
             simulate_loop ar mem reflections grain_params exper image_stack' ctl' (i + 1))"

text \<open>
  \<^verbatim>\<open>simulate_diffractions\<close>: the stack starts as
  \<^verbatim>\<open>np.zeros((nframes, nrows, ncols), dtype=bool)\<close>; \<^verbatim>\<open>controller.start\<close> comes before
  the loop and \<^verbatim>\<open>controller.finish\<close> after it.
\<close>

definition simulate_diffractions ::
  "'f arith \<Rightarrow> 'f memory \<Rightarrow> ('g \<Rightarrow> ('f \<times> 'f) list \<times> 'f list) \<Rightarrow> 'g list \<Rightarrow>
   ('f, 'r) nf_experiment \<Rightarrow> 'o controller option \<Rightarrow> error + volume \<times> 'o controller option" where
  "simulate_diffractions ar mem reflections grain_params exper ctl =
     (case invoke ctl (Start ''simulate diffractions'' (length grain_params)) of
        Inl e \<Rightarrow> Inl e
      | Inr ctl1 \<Rightarrow>
          (case simulate_loop ar mem reflections grain_params exper
                  (replicate (nframes exper) (replicate (nrows exper)
                     (replicate (ncols exper) False))) ctl1 0 of
             Inl e \<Rightarrow> Inl e
           | Inr (image_stack, ctl2) \<Rightarrow>
               (case invoke ctl2 (Finish ''simulate diffractions'') of
                  Inl e \<Rightarrow> Inl e
                | Inr ctl3 \<Rightarrow> Inr (image_stack, ctl3))))"

text \<open>
  \<^verbatim>\<open>get_simulate_diffractions\<close>. \<open>cache\<close> is what \<^verbatim>\<open>np.load(cache_file)\<close> yields,
  \<open>None\<close> when it raises; \<open>save_fails\<close> tells whether \<^verbatim>\<open>np.save\<close> raises, which
  happens inside the \<^verbatim>\<open>except\<close> block and is not caught. After the
  \<^verbatim>\<open>try\<close> statement \<^verbatim>\<open>controller.handle_result('image_stack', image_stack)\<close> is
  called on both paths.
\<close>

definition get_simulate_diffractions ::
  "'f arith \<Rightarrow> 'f memory \<Rightarrow> ('g \<Rightarrow> ('f \<times> 'f) list \<times> 'f list) \<Rightarrow> 'g list \<Rightarrow>
   ('f, 'r) nf_experiment \<Rightarrow> volume option \<Rightarrow> bool \<Rightarrow> 'o controller option \<Rightarrow>
   error + volume \<times> 'o controller option" where
  "get_simulate_diffractions ar mem reflections grain_params exper cache save_fails ctl =
     (case (case cache of
              Some image_stack \<Rightarrow> Inr (image_stack, ctl)
            | None \<Rightarrow>
                (case simulate_diffractions ar mem reflections grain_params exper ctl of
                   Inl e \<Rightarrow> Inl e
                 | Inr r \<Rightarrow> if save_fails then Inl ExternalError else Inr r)) of
        Inl e \<Rightarrow> Inl e
      | Inr (image_stack, ctl1) \<Rightarrow>
          (case invoke ctl1 (Handle_result ''image_stack'') of
             Inl e \<Rightarrow> Inl e
           | Inr ctl2 \<Rightarrow> Inr (image_stack, ctl2)))"

subsection \<open>Beam rotation matrix\<close>

text \<open>
  \<^verbatim>\<open>make_beam_rmat\<close> of \<^verbatim>\<open>xf_numba.py\<close>, statement by statement. The local variable
  \<^verbatim>\<open>out\<close> is bound only by \<^verbatim>\<open>out = np.empty((3,3))\<close>, which comes after the loop that
  stores into \<^verbatim>\<open>out[i, 2]\<close>; a local that is read before it is bound raises
  \<^verbatim>\<open>UnboundLocalError\<close> (numba refuses to compile the function for the same reason).
  So \<open>out\<close> is an optional matrix here. The two tests against
  \<^verbatim>\<open>cnst.sqrt_epsf\<close> guard only \<^verbatim>\<open>pass\<close> and have no effect. A division by zero
  raises under numba's Python error model.
\<close>

type_synonym vec3 = "real \<times> real \<times> real"

type_synonym mat33 = "nat \<times> nat \<Rightarrow> real"

definition item :: "vec3 \<Rightarrow> nat \<Rightarrow> real" where
  "item v i = (if i = 0 then at0 v else if i = 1 then at1 v else at2 v)"

definition fdiv :: "real \<Rightarrow> real \<Rightarrow> error + real" where
  "fdiv a b = (if b = 0 then Inl ZeroDivisionError else Inr (a / b))"

text \<open>\<^verbatim>\<open>out[i, j] = v\<close> on the local \<^verbatim>\<open>out\<close>\<close>

definition set_item :: "mat33 option \<Rightarrow> nat \<times> nat \<Rightarrow> real \<Rightarrow> error + mat33 option" where
  "set_item out ij v =
     (case out of
        None \<Rightarrow> Inl UnboundLocalError
      | Some m \<Rightarrow> Inr (Some (m(ij := v))))"

text \<open>\<^verbatim>\<open>for i in range(3): out[i, 2] = -bvec_l[i] / bvec_mag\<close>\<close>

fun assign_Ze :: "nat list \<Rightarrow> vec3 \<Rightarrow> real \<Rightarrow> mat33 option \<Rightarrow> error + mat33 option" where
  "assign_Ze [] bvec_l bvec_mag out = Inr out"
| "assign_Ze (i # rest) bvec_l bvec_mag out =
     then_do (fdiv (- item bvec_l i) bvec_mag) (\<lambda>v.
     then_do (set_item out (i, 2) v) (\<lambda>out'.
     assign_Ze rest bvec_l bvec_mag out'))"

text \<open>
  The body. \<open>junk\<close> is the content of the array that \<^verbatim>\<open>np.empty((3,3))\<close> returns. The
  components of \<^verbatim>\<open>Ye\<close> are divided by \<^verbatim>\<open>Ye_mag\<close> in place and once more when they are
  stored, as in the source. The locals \<^verbatim>\<open>Xe0\<close>, \<^verbatim>\<open>Xe1\<close> and \<^verbatim>\<open>Xe2\<close> are computed
  and never read; they are left out.
\<close>

definition make_beam_rmat :: "mat33 \<Rightarrow> vec3 \<Rightarrow> vec3 \<Rightarrow> error + mat33" where
  "make_beam_rmat junk bvec_l evec_l =
     (let bvec_mag = sqrt ((item bvec_l 0)\<^sup>2 + (item bvec_l 1)\<^sup>2 + (item bvec_l 2)\<^sup>2) in
      then_do (assign_Ze [0, 1, 2] bvec_l bvec_mag None) (\<lambda>_.
      then_do (fdiv (- item bvec_l 0) bvec_mag) (\<lambda>Ze0.
      then_do (fdiv (- item bvec_l 1) bvec_mag) (\<lambda>Ze1.
      then_do (fdiv (- item bvec_l 2) bvec_mag) (\<lambda>Ze2.
      let Ye0 = Ze1 * item evec_l 2 - item evec_l 1 * Ze2;
          Ye1 = Ze2 * item evec_l 0 - item evec_l 2 * Ze0;
          Ye2 = Ze0 * item evec_l 1 - item evec_l 0 * Ze1;
          Ye_mag = sqrt (Ye0\<^sup>2 + Ye1\<^sup>2 + Ye2\<^sup>2)
      in
      then_do (fdiv Ye0 Ye_mag) (\<lambda>Ye0'.
      then_do (fdiv Ye1 Ye_mag) (\<lambda>Ye1'.
      then_do (fdiv Ye2 Ye_mag) (\<lambda>Ye2'.
      then_do (fdiv Ye0' Ye_mag) (\<lambda>c01.
      then_do (set_item (Some junk) (0, 1) c01) (\<lambda>out1.
      then_do (fdiv Ye1' Ye_mag) (\<lambda>c11.
      then_do (set_item out1 (1, 1) c11) (\<lambda>out2.
      then_do (fdiv Ye2' Ye_mag) (\<lambda>c21.
      then_do (set_item out2 (2, 1) c21) (\<lambda>out3.
      (case out3 of
         None \<Rightarrow> Inl UnboundLocalError
       | Some m \<Rightarrow>
           (let m1 = m((0, 0) := m (1, 1) * m (2, 2) - m (1, 2) * m (2, 1));
                m2 = m1((1, 0) := m1 (2, 1) * m1 (0, 2) - m1 (2, 2) * m1 (0, 1));
                m3 = m2((2, 0) := m2 (0, 1) * m2 (1, 2) - m2 (0, 2) * m2 (1, 1))
            in Inr m3))))))))))))))))"

subsection \<open>Checking result handler\<close>

text \<open>
  \<^verbatim>\<open>CheckingResultHandler.handle_result\<close>. An array is the list of its entries along
  the first axis, which is what \<^verbatim>\<open>len\<close> and the slice \<^verbatim>\<open>[:check_len]\<close> see.
  \<open>reference_results\<close> is the loaded reference file, a map from keys to arrays.
  \<^verbatim>\<open>np.allclose\<close> is a parameter: it returns a truth value or raises (on shapes that
  do not broadcast). The result is the list of log records the call emits.
\<close>

datatype level = INFO | WARN | ERROR

datatype verdict = FAIL | PARTIAL_PASS | FULL_PASS

datatype message =
    Key_missing string
  | No_reference_result string
  | Verdict string verdict
  | Failure_trying_to_check string

definition handle_result ::
  "('a list \<Rightarrow> 'a list \<Rightarrow> error + bool) \<Rightarrow> (string \<rightharpoonup> 'a list) \<Rightarrow> string \<Rightarrow> 'a list \<Rightarrow>
   (level \<times> message) list" where
  "handle_result allclose reference_results key val =
     (if key \<in> set [''experiment'', ''image_stack''] then []
      else
        (case reference_results key of
           None \<Rightarrow>
             [(WARN, Key_missing key), (WARN, No_reference_result key),
              (ERROR, Failure_trying_to_check key)]
         | Some reference \<Rightarrow>
             (let check_len = min (length reference) (length val) in
              case allclose (take check_len val) (take check_len reference) of
                Inl e \<Rightarrow> [(ERROR, Failure_trying_to_check key)]
              | Inr test_passed \<Rightarrow>
                  if \<not> test_passed
                  then [(WARN, Verdict key FAIL), (WARN, Verdict key FAIL)]
                  else if length val > check_len
                  then [(WARN, Verdict key PARTIAL_PASS)]
                  else [(INFO, Verdict key FULL_PASS)])))"

text \<open>The verdicts that a list of log records reports.\<close>

fun verdicts :: "(level \<times> message) list \<Rightarrow> verdict list" where
  "verdicts [] = []"
| "verdicts ((l, Verdict k v) # rest) = v # verdicts rest"
| "verdicts (_ # rest) = verdicts rest"

text \<open>
  \<^verbatim>\<open>np.allclose(a, b)\<close> of numpy on two arrays of two dimensions, given as the lists of
  their rows; \<open>wa\<close> and \<open>wb\<close> are their second dimensions (which slicing along the first
  axis leaves as they are) and \<open>isclose\<close> is the test on two entries,
  \<open>\<bar>x - y\<bar> \<le> atol + rtol * \<bar>y\<bar>\<close>. numpy broadcasts the two shapes against each other: two
  dimensions are compatible when they are equal or one of them is 1, and
  \<^verbatim>\<open>ValueError\<close> is raised when they are not.
\<close>

definition broadcasts :: "nat \<Rightarrow> nat \<Rightarrow> bool" where
  "broadcasts m n = (m = n \<or> m = 1 \<or> n = 1)"

definition np_allclose ::
  "('f \<Rightarrow> 'f \<Rightarrow> bool) \<Rightarrow> nat \<Rightarrow> nat \<Rightarrow> 'f list list \<Rightarrow> 'f list list \<Rightarrow> error + bool" where
  "np_allclose isclose wa wb a b =
     (if broadcasts (length a) (length b) \<and> broadcasts wa wb
      then Inr (list_all
                  (\<lambda>i. list_all
                         (\<lambda>j. isclose
                                (a ! (if length a = 1 then 0 else i) ! (if wa = 1 then 0 else j))
                                (b ! (if length b = 1 then 0 else i) ! (if wb = 1 then 0 else j)))
                         [0 ..< (if wa = 1 then wb else wa)])
                  [0 ..< (if length a = 1 then length b else length a)])
      else Inl ValueError)"

subsection \<open>Dilation pass\<close>

text \<open>
  Arrays live in a store: \<open>heap\<close> maps an address to the array allocated there and
  \<open>next_addr\<close> is the first address never handed out. \<^verbatim>\<open>image_stack\<close> is an address.
\<close>

record store =
  heap :: "nat \<rightharpoonup> volume"
  next_addr :: nat

text \<open>
  \<^verbatim>\<open>np.empty_like(image_stack)\<close>: a new array of the same shape; \<open>junk\<close> is its
  uninitialised content.
\<close>

definition empty_like :: "bool \<Rightarrow> nat \<Rightarrow> store \<Rightarrow> error + nat \<times> store" where
  "empty_like junk src s =
     (case heap s src of
        None \<Rightarrow> Inl AttributeError
      | Some img \<Rightarrow>
          Inr (next_addr s,
               s\<lparr>heap := (heap s)(next_addr s \<mapsto> map (map (map (\<lambda>_. junk))) img),
                 next_addr := Suc (next_addr s)\<rparr>))"

text \<open>
  \<^verbatim>\<open>ski_dilation(image_stack[i_image], dilation_shape, out=image_stack_dilated[i_image])\<close>:
  skimage's dilation, the parameter \<open>dilation\<close>, reads frame \<open>i\<close> of the source and its
  result is written into frame \<open>i\<close> of the destination.
\<close>

definition dilate_frame ::
  "(nat \<times> nat \<Rightarrow> bool list list \<Rightarrow> bool list list) \<Rightarrow> nat \<times> nat \<Rightarrow> nat \<Rightarrow> nat \<Rightarrow> nat \<Rightarrow>
   store \<Rightarrow> error + store" where
  "dilate_frame dilation dilation_shape src dst i s =
     (case (heap s src, heap s dst) of
        (Some img, Some dil) \<Rightarrow>
          if i < length img \<and> i < length dil
          then Inr (s\<lparr>heap := (heap s)(dst \<mapsto> dil[i := dilation dilation_shape (img ! i)])\<rparr>)
          else Inl IndexError
      | _ \<Rightarrow> Inl AttributeError)"

text \<open>\<^verbatim>\<open>for i_image in range(n_images)\<close>, with \<^verbatim>\<open>controller.update(i_image+1)\<close>\<close>

fun dilate_frames ::
  "(nat \<times> nat \<Rightarrow> bool list list \<Rightarrow> bool list list) \<Rightarrow> nat \<times> nat \<Rightarrow> nat \<Rightarrow> nat \<Rightarrow> nat list \<Rightarrow>
   store \<times> 'o controller option \<Rightarrow> error + store \<times> 'o controller option" where
  "dilate_frames dilation dilation_shape src dst [] st = Inr st"
| "dilate_frames dilation dilation_shape src dst (i # rest) st =
     then_do (dilate_frame dilation dilation_shape src dst i (fst st)) (\<lambda>s'.
     then_do (invoke (snd st) (Update (i + 1))) (\<lambda>ctl'.
     dilate_frames dilation dilation_shape src dst rest (s', ctl')))"

text \<open>
  The first part of \<^verbatim>\<open>_grand_loop_precomp\<close>, up to \<^verbatim>\<open>controller.finish(subprocess)\<close>:
  it returns the address of \<^verbatim>\<open>image_stack_dilated\<close>.
\<close>

definition dilate_image_stack ::
  "(nat \<times> nat \<Rightarrow> bool list list \<Rightarrow> bool list list) \<Rightarrow> bool \<Rightarrow> ('f, 'r) nf_experiment \<Rightarrow>
   nat \<Rightarrow> store \<times> 'o controller option \<Rightarrow> error + nat \<times> store \<times> 'o controller option" where
  "dilate_image_stack dilation junk exper image_stack st =
     (let dilation_shape = (2 * row_dilation exper + 1, 2 * col_dilation exper + 1) in
      then_do (empty_like junk image_stack (fst st)) (\<lambda>(image_stack_dilated, s1).
      let n_images = (case heap s1 image_stack of None \<Rightarrow> 0 | Some img \<Rightarrow> length img) in
      then_do (invoke (snd st) (Start ''dilate image_stack'' n_images)) (\<lambda>ctl1.
      then_do (dilate_frames dilation dilation_shape image_stack image_stack_dilated
                 [0 ..< n_images] (s1, ctl1)) (\<lambda>(s2, ctl2).
      then_do (invoke ctl2 (Finish ''dilate image_stack'')) (\<lambda>ctl3.
      Inr (image_stack_dilated, s2, ctl3))))))"

subsection \<open>Grand loop\<close>

text \<open>
  The confidence matrix, indexed \<^verbatim>\<open>[grain, voxel]\<close>. A cell is \<open>None\<close> as long as it
  holds what \<^verbatim>\<open>np.empty\<close> left there, and \<open>Some c\<close> once a score \<open>c\<close> is stored.
\<close>

type_synonym confidence = "real option list list"

text \<open>\<^verbatim>\<open>xs[i]\<close> for a non-negative index, in interpreted code\<close>

definition get_item :: "'a list \<Rightarrow> nat \<Rightarrow> error + 'a" where
  "get_item xs i = (if i < length xs then Inr (xs ! i) else Inl IndexError)"

text \<open>\<^verbatim>\<open>confidence[igrn, icrd] = c\<close> on a numpy array, in interpreted code\<close>

definition set_cell :: "confidence \<Rightarrow> nat \<Rightarrow> nat \<Rightarrow> real \<Rightarrow> error + confidence" where
  "set_cell conf igrn icrd c =
     (if igrn < length conf \<and> icrd < length (conf ! igrn)
      then Inr (conf[igrn := (conf ! igrn)[icrd := Some c]])
      else Inl IndexError)"

text \<open>
  The body of the loop of \<^verbatim>\<open>_grand_loop_inner\<close> for one pair \<^verbatim>\<open>(icrd, igrn)\<close>:
  \<open>cell_confidence\<close> is the computation of \<^verbatim>\<open>c\<close>, \<open>grand_loop_cell\<close> adds the store
  \<^verbatim>\<open>confidence[igrn, icrd] = c\<close>. An
  angle table is a list of rows \<^verbatim>\<open>(tth, eta, ome)\<close>, and \<^verbatim>\<open>angs[:,2]\<close> is its third
  column. \<open>project\<close> stands for \<^verbatim>\<open>_project_on_detector_plane\<close> with the detector and
  stage geometry of the experiment; \<open>'c\<close> is the type of a test coordinate.
\<close>

definition cell_confidence ::
  "'f arith \<Rightarrow> 'f memory \<Rightarrow> (('f \<times> 'f \<times> 'f) list \<Rightarrow> 'r \<Rightarrow> 'c \<Rightarrow> ('f \<times> 'f) list) \<Rightarrow> volume \<Rightarrow>
   ('f \<times> 'f \<times> 'f) list list \<Rightarrow> 'c list \<Rightarrow> ('f, 'r) nf_experiment \<Rightarrow> nat \<times> nat \<Rightarrow>
   error + real" where
  "cell_confidence ar mem project image_stack angles coords exper cell =
     then_do (get_item angles (snd cell)) (\<lambda>angs.
     then_do (get_item (rMat_c exper) (snd cell)) (\<lambda>rC.
     then_do (get_item coords (fst cell)) (\<lambda>crd.
     quant_and_clip_confidence ar mem (project angs rC crd) (map (\<lambda>t. snd (snd t)) angs)
       image_stack (exp_base exper) (exp_inv_deltas exper) (exp_clip_vals exper))))"

definition grand_loop_cell ::
  "'f arith \<Rightarrow> 'f memory \<Rightarrow> (('f \<times> 'f \<times> 'f) list \<Rightarrow> 'r \<Rightarrow> 'c \<Rightarrow> ('f \<times> 'f) list) \<Rightarrow> volume \<Rightarrow>
   ('f \<times> 'f \<times> 'f) list list \<Rightarrow> 'c list \<Rightarrow> ('f, 'r) nf_experiment \<Rightarrow> nat \<times> nat \<Rightarrow>
   confidence \<Rightarrow> error + confidence" where
  "grand_loop_cell ar mem project image_stack angles coords exper cell conf =
     then_do (cell_confidence ar mem project image_stack angles coords exper cell) (\<lambda>c.
     set_cell conf (snd cell) (fst cell) c)"

text \<open>A loop whose body may raise: the first error ends it.\<close>

fun for_each :: "('a \<Rightarrow> 's \<Rightarrow> error + 's) \<Rightarrow> 'a list \<Rightarrow> 's \<Rightarrow> error + 's" where
  "for_each body [] s = Inr s"
| "for_each body (x # xs) s = then_do (body x s) (for_each body xs)"

text \<open>
  \<^verbatim>\<open>_grand_loop_inner\<close>:
  \<^verbatim>\<open>for icrd, igrn in it.product(xrange(start, stop), xrange(n_angles))\<close>, where a missing
  \<^verbatim>\<open>stop\<close> is \<^verbatim>\<open>len(coords)\<close>.
\<close>

definition grand_loop_inner ::
  "'f arith \<Rightarrow> 'f memory \<Rightarrow> (('f \<times> 'f \<times> 'f) list \<Rightarrow> 'r \<Rightarrow> 'c \<Rightarrow> ('f \<times> 'f) list) \<Rightarrow>
   confidence \<Rightarrow> volume \<Rightarrow> ('f \<times> 'f \<times> 'f) list list \<Rightarrow> 'c list \<Rightarrow> ('f, 'r) nf_experiment \<Rightarrow>
   nat \<Rightarrow> nat option \<Rightarrow> error + confidence" where
  "grand_loop_inner ar mem project conf image_stack angles coords exper start stop =
     for_each (grand_loop_cell ar mem project image_stack angles coords exper)
       (List.product [start ..< (case stop of None \<Rightarrow> length coords | Some n \<Rightarrow> n)]
                     [0 ..< length angles])
       conf"

text \<open>
  One turn of the serial loop of \<^verbatim>\<open>_grand_loop_precomp\<close>; the state is the matrix, the
  controller and the counter \<^verbatim>\<open>finished\<close>.
\<close>

definition serial_chunk ::
  "'f arith \<Rightarrow> 'f memory \<Rightarrow> (('f \<times> 'f \<times> 'f) list \<Rightarrow> 'r \<Rightarrow> 'c \<Rightarrow> ('f \<times> 'f) list) \<Rightarrow> volume \<Rightarrow>
   ('f \<times> 'f \<times> 'f) list list \<Rightarrow> 'c list \<Rightarrow> ('f, 'r) nf_experiment \<Rightarrow> nat \<Rightarrow> nat \<Rightarrow> nat \<Rightarrow>
   confidence \<times> 'o controller option \<times> nat \<Rightarrow>
   error + confidence \<times> 'o controller option \<times> nat" where
  "serial_chunk ar mem project image_stack_dilated all_angles test_crds exper n_coords
       chunk_size chunk_start st =
     then_do (grand_loop_inner ar mem project (fst st) image_stack_dilated all_angles test_crds
                exper chunk_start (Some (serial_chunk_stop n_coords chunk_size chunk_start)))
       (\<lambda>conf.
     then_do (invoke (fst (snd st)) (Update (snd (snd st) + 1))) (\<lambda>ctl.
     Inr (conf, ctl, snd (snd st) + 1)))"

text \<open>
  One chunk of the pool: \<^verbatim>\<open>multiproc_inner_loop(chunk)\<close> in a worker, on the shared
  matrix, then \<^verbatim>\<open>finished += 1\<close> and \<^verbatim>\<open>controller.update(finished)\<close> in the parent.
\<close>

definition multiproc_chunk ::
  "'f arith \<Rightarrow> 'f memory \<Rightarrow> (('f \<times> 'f \<times> 'f) list \<Rightarrow> 'r \<Rightarrow> 'c \<Rightarrow> ('f \<times> 'f) list) \<Rightarrow> volume \<Rightarrow>
   ('f \<times> 'f \<times> 'f) list list \<Rightarrow> 'c list \<Rightarrow> ('f, 'r) nf_experiment \<Rightarrow> nat \<Rightarrow> nat \<Rightarrow>
   confidence \<times> 'o controller option \<times> nat \<Rightarrow>
   error + confidence \<times> 'o controller option \<times> nat" where
  "multiproc_chunk ar mem project image_stack_dilated all_angles test_crds exper chunk_size
       chunk st =
     then_do (grand_loop_inner ar mem project (fst st) image_stack_dilated all_angles test_crds
                exper chunk (Some (multiproc_chunk_stop (length test_crds) chunk_size chunk)))
       (\<lambda>conf.
     then_do (invoke (fst (snd st)) (Update (snd (snd st) + 1))) (\<lambda>ctl.
     Inr (conf, ctl, snd (snd st) + 1)))"

text \<open>
  The second part of \<^verbatim>\<open>_grand_loop_precomp\<close>, from \<^verbatim>\<open>n_grains = experiment.n_grains\<close>
  on. With more than one process the matrix is the zero-filled shared array and the pool
  runs the chunks; \<open>order\<close> lists the chunk starts in the order in which
  \<^verbatim>\<open>imap_unordered\<close> runs them, a permutation of \<^verbatim>\<open>chunks\<close>. Otherwise the matrix
  comes from \<^verbatim>\<open>np.empty\<close> and the chunks run in the order of \<^verbatim>\<open>chunks\<close>.
\<close>

definition grand_loop ::
  "'f arith \<Rightarrow> 'f memory \<Rightarrow> (('f \<times> 'f \<times> 'f) list \<Rightarrow> 'r \<Rightarrow> 'c \<Rightarrow> ('f \<times> 'f) list) \<Rightarrow>
   (nat list \<Rightarrow> nat list) \<Rightarrow> volume \<Rightarrow> ('f \<times> 'f \<times> 'f) list list \<Rightarrow> 'c list \<Rightarrow>
   ('f, 'r) nf_experiment \<Rightarrow> 'o controller option \<Rightarrow>
   error + confidence \<times> 'o controller option" where
  "grand_loop ar mem project order image_stack_dilated all_angles test_crds exper ctl =
     (case ctl of
        None \<Rightarrow> Inl AttributeError
      | Some k \<Rightarrow>
          (let n_coords = limit_coords k (length test_crds);
               chunk_size = get_chunk_size k;
               ncpus = get_process_count k
           in
           then_do (chunks_of n_coords chunk_size) (\<lambda>chunks.
           then_do (invoke ctl (Start ''grand_loop'' (length chunks))) (\<lambda>ctl1.
           then_do
             (if ncpus > 1
              then for_each (multiproc_chunk ar mem project image_stack_dilated all_angles
                               test_crds exper chunk_size)
                     (order chunks)
                     (replicate (n_grains exper) (replicate n_coords (Some 0)), ctl1, 0)
              else for_each (serial_chunk ar mem project image_stack_dilated all_angles
                               test_crds exper n_coords chunk_size)
                     chunks
                     (replicate (n_grains exper) (replicate n_coords None), ctl1, 0))
             (\<lambda>(conf, ctl2, finished).
           then_do (invoke ctl2 (Finish ''grand_loop'')) (\<lambda>ctl3.
           then_do (invoke ctl3 (Handle_result ''confidence'')) (\<lambda>ctl4.
           Inr (conf, ctl4))))))))"

text \<open>
  \<^verbatim>\<open>_grand_loop_precomp\<close>: the dilation pass, then the grand loop on the dilated stack.
\<close>

definition grand_loop_precomp ::
  "'f arith \<Rightarrow> 'f memory \<Rightarrow> (('f \<times> 'f \<times> 'f) list \<Rightarrow> 'r \<Rightarrow> 'c \<Rightarrow> ('f \<times> 'f) list) \<Rightarrow>
   (nat \<times> nat \<Rightarrow> bool list list \<Rightarrow> bool list list) \<Rightarrow> bool \<Rightarrow> (nat list \<Rightarrow> nat list) \<Rightarrow>
   nat \<Rightarrow> ('f \<times> 'f \<times> 'f) list list \<Rightarrow> 'c list \<Rightarrow> ('f, 'r) nf_experiment \<Rightarrow>
   store \<times> 'o controller option \<Rightarrow> error + confidence \<times> store \<times> 'o controller option" where
  "grand_loop_precomp ar mem project dilation junk order image_stack all_angles test_crds exper
       st =
     then_do (dilate_image_stack dilation junk exper image_stack st)
       (\<lambda>(image_stack_dilated, s1, ctl1).
     (case heap s1 image_stack_dilated of
        None \<Rightarrow> Inl AttributeError
      | Some dilated \<Rightarrow>
          then_do (grand_loop ar mem project order dilated all_angles test_crds exper ctl1)
            (\<lambda>(conf, ctl2). Inr (conf, s1, ctl2))))"

subsection \<open>The quantizer as the specification words it\<close>

text \<open>
  The specification's reading of the quantizer, for comparison with the loops above. The
  points are the rows of \<^verbatim>\<open>coords\<close>, each with the angle that the code reads for it:
  row \<open>j\<close> with \<^verbatim>\<open>angles[j]\<close>. A point is kept when its quantized x index lies in
  \<open>[0, clip[0])\<close> and its quantized y index in \<open>[0, clip[1])\<close>, and a kept point yields
  its three quantized indices.
\<close>

definition points_from ::
  "'f memory \<Rightarrow> nat \<Rightarrow> ('f \<times> 'f) list \<Rightarrow> 'f list \<Rightarrow> (('f \<times> 'f) \<times> 'f) list" where
  "points_from mem i coords angles =
     map (\<lambda>jp. (snd jp, angle_at mem angles (fst jp))) (enumerate i coords)"

definition spec_keeps ::
  "'f arith \<Rightarrow> 'f \<times> 'f \<times> 'f \<Rightarrow> 'f \<times> 'f \<times> 'f \<Rightarrow> int \<times> int \<Rightarrow> ('f \<times> 'f) \<times> 'f \<Rightarrow> bool" where
  "spec_keeps ar base inv_deltas clip_vals pt =
     (0 \<le> quant ar (fst (fst pt)) (at0 base) (at0 inv_deltas)
      \<and> quant ar (fst (fst pt)) (at0 base) (at0 inv_deltas) < fst clip_vals
      \<and> 0 \<le> quant ar (snd (fst pt)) (at1 base) (at1 inv_deltas)
      \<and> quant ar (snd (fst pt)) (at1 base) (at1 inv_deltas) < snd clip_vals)"

definition spec_indices ::
  "'f arith \<Rightarrow> 'f \<times> 'f \<times> 'f \<Rightarrow> 'f \<times> 'f \<times> 'f \<Rightarrow> ('f \<times> 'f) \<times> 'f \<Rightarrow> int \<times> int \<times> int" where
  "spec_indices ar base inv_deltas pt =
     (quant ar (fst (fst pt)) (at0 base) (at0 inv_deltas),
      quant ar (snd (fst pt)) (at1 base) (at1 inv_deltas),
      quant ar (snd pt) (at2 base) (at2 inv_deltas))"

text \<open>The reflections that survive clipping.\<close>

definition survivors ::
  "'f arith \<Rightarrow> 'f memory \<Rightarrow> ('f \<times> 'f) list \<Rightarrow> 'f list \<Rightarrow> 'f \<times> 'f \<times> 'f \<Rightarrow> 'f \<times> 'f \<times> 'f \<Rightarrow>
   int \<times> int \<Rightarrow> (('f \<times> 'f) \<times> 'f) list" where
  "survivors ar mem coords angles base inv_deltas clip_vals =
     filter (spec_keeps ar base inv_deltas clip_vals) (points_from mem 0 coords angles)"

text \<open>The reflections of one cell \<^verbatim>\<open>(icrd, igrn)\<close> of the grand loop that survive clipping.\<close>

definition cell_survivors ::
  "'f arith \<Rightarrow> 'f memory \<Rightarrow> (('f \<times> 'f \<times> 'f) list \<Rightarrow> 'r \<Rightarrow> 'c \<Rightarrow> ('f \<times> 'f) list) \<Rightarrow>
   ('f \<times> 'f \<times> 'f) list list \<Rightarrow> 'c list \<Rightarrow> ('f, 'r) nf_experiment \<Rightarrow> nat \<times> nat \<Rightarrow>
   (('f \<times> 'f) \<times> 'f) list" where
  "cell_survivors ar mem project angles coords exper cell =
     survivors ar mem
       (project (angles ! snd cell) (rMat_c exper ! snd cell) (coords ! fst cell))
       (map (\<lambda>t. snd (snd t)) (angles ! snd cell))
       (exp_base exper) (exp_inv_deltas exper) (exp_clip_vals exper)"

text \<open>
  Likewise for the rasterizer: setting, one after the other, the voxels of a list of index
  triples \<open>(x, y, z)\<close>; and for the evaluator: whether the voxel of an index triple is lit.
\<close>

fun spec_set_voxels :: "(int \<times> int \<times> int) list \<Rightarrow> volume \<Rightarrow> volume" where
  "spec_set_voxels [] img = img"
| "spec_set_voxels (t # ts) img =
     spec_set_voxels ts (image_set_True img (snd (snd t)) (fst (snd t)) (fst t))"

definition spec_lit :: "'f memory \<Rightarrow> volume \<Rightarrow> int \<times> int \<times> int \<Rightarrow> bool" where
  "spec_lit mem img t = image_get mem img (snd (snd t)) (fst (snd t)) (fst t)"

definition int32_triple :: "int \<times> int \<times> int \<Rightarrow> int \<times> int \<times> int" where
  "int32_triple t = (int32 (fst t), int32 (fst (snd t)), int32 (snd (snd t)))"

text \<open>Memory that holds zero bytes and zero floats outside the arrays.\<close>

definition zeroed :: "double memory" where
  "zeroed = \<lparr>voxel_outside = (\<lambda>_. False), angle_outside = (\<lambda>_. (0, 0))\<rparr>"

section \<open>Properties\<close>

subsection \<open>Quantizer and confidence evaluator\<close>

lemma points_from_Nil: "points_from mem i [] angles = []"
  by (simp add: points_from_def)

lemma points_from_Cons:
  "points_from mem i (p # coords) angles
     = (p, angle_at mem angles i) # points_from mem (Suc i) coords angles"
  by (simp add: points_from_def)

lemma points_from_drop:
  "i + length coords \<le> length angles \<Longrightarrow>
   points_from mem i coords angles = zip coords (drop i angles)"
proof (induction coords arbitrary: i)
  case Nil
  show ?case by (simp add: points_from_Nil)
next
  case (Cons p coords)
  have i: "i < length angles" using Cons.prems by simp
  have rest: "Suc i + length coords \<le> length angles" using Cons.prems by simp
  have d: "drop i angles = angles ! i # drop (Suc i) angles"
    using i by (simp add: Cons_nth_drop_Suc)
  show ?case
    unfolding points_from_Cons Cons.IH [OF rest] d using i by (simp add: angle_at_def)
qed

lemma points_from_zip:
  "length coords \<le> length angles \<Longrightarrow> points_from mem 0 coords angles = zip coords angles"
  using points_from_drop [of 0 coords angles mem] by simp

lemma spec_keeps_point:
  "spec_keeps ar base inv_deltas clip_vals (p, ang) =
     (\<not> (quant ar (fst p) (at0 base) (at0 inv_deltas) < 0
          \<or> quant ar (fst p) (at0 base) (at0 inv_deltas) \<ge> fst clip_vals)
      \<and> \<not> (quant ar (snd p) (at1 base) (at1 inv_deltas) < 0
          \<or> quant ar (snd p) (at1 base) (at1 inv_deltas) \<ge> snd clip_vals))"
  by (auto simp add: spec_keeps_def)

lemma quant_and_clip_loop_keep:
  "spec_keeps ar base inv_deltas clip_vals (p, ang) \<Longrightarrow>
   quant_and_clip_loop ar mem (p # coords) i angles base inv_deltas clip_vals st =
   quant_and_clip_loop ar mem coords (Suc i) angles base inv_deltas clip_vals
     (Suc (fst st),
      (snd st)[fst st :=
         int32_triple (spec_indices ar base inv_deltas (p, angle_at mem angles i))])"
  by (simp add: spec_keeps_point int32_triple_def spec_indices_def)

lemma quant_and_clip_loop_drop:
  "\<not> spec_keeps ar base inv_deltas clip_vals (p, ang) \<Longrightarrow>
   quant_and_clip_loop ar mem (p # coords) i angles base inv_deltas clip_vals st =
   quant_and_clip_loop ar mem coords (Suc i) angles base inv_deltas clip_vals st"
  by (auto simp add: spec_keeps_point)

lemma quant_and_clip_loop_filter:
  assumes "cur + length coords \<le> length a"
  shows "quant_and_clip_loop ar mem coords i angles base inv_deltas clip_vals (cur, a) =
         (cur + length (filter (spec_keeps ar base inv_deltas clip_vals)
                          (points_from mem i coords angles)),
          take cur a @
          map (\<lambda>pt. int32_triple (spec_indices ar base inv_deltas pt))
            (filter (spec_keeps ar base inv_deltas clip_vals) (points_from mem i coords angles)) @
          drop (cur + length (filter (spec_keeps ar base inv_deltas clip_vals)
                                (points_from mem i coords angles))) a)"
  using assms
proof (induction coords arbitrary: i cur a)
  case Nil
  then show ?case by (simp add: points_from_Nil)
next
  case (Cons p coords)
  let ?ang = "angle_at mem angles i"
  have cur: "cur < length a" using Cons.prems by simp
  show ?case
  proof (cases "spec_keeps ar base inv_deltas clip_vals (p, ?ang)")
    case True
    let ?v = "int32_triple (spec_indices ar base inv_deltas (p, ?ang))"
    have next_ok: "Suc cur + length coords \<le> length (a[cur := ?v])"
      using Cons.prems by simp
    have tk: "take (Suc cur) (a[cur := ?v]) = take cur a @ [?v]"
      using cur by (simp add: take_Suc_conv_app_nth)
    show ?thesis
      unfolding quant_and_clip_loop_keep [OF True] points_from_Cons fst_conv snd_conv
        Cons.IH [OF next_ok] tk
      using True by simp
  next
    case False
    have next_ok: "cur + length coords \<le> length a" using Cons.prems by simp
    show ?thesis
      unfolding quant_and_clip_loop_drop [OF False] points_from_Cons Cons.IH [OF next_ok]
      using False by simp
  qed
qed

lemma quant_and_clip_filter:
  "quant_and_clip ar mem coords angles base inv_deltas clip_vals =
     map (\<lambda>pt. int32_triple (spec_indices ar base inv_deltas pt))
       (filter (spec_keeps ar base inv_deltas clip_vals) (points_from mem 0 coords angles))"
proof -
  have "length (points_from mem 0 coords angles) = length coords"
    by (simp add: points_from_def)
  then have "length (filter (spec_keeps ar base inv_deltas clip_vals)
                       (points_from mem 0 coords angles)) \<le> length coords"
    using length_filter_le [of "spec_keeps ar base inv_deltas clip_vals"
            "points_from mem 0 coords angles"] by simp
  then show ?thesis
    using quant_and_clip_loop_filter [of 0 coords "replicate (length coords) (0, 0, 0)"
            ar mem 0 angles base inv_deltas clip_vals]
    by (simp add: quant_and_clip_def)
qed

lemma write_pixels_loop_filter:
  "write_pixels_loop ar mem coords i angles img base inv_deltas clip_vals =
     spec_set_voxels (map (spec_indices ar base inv_deltas)
                        (filter (spec_keeps ar base inv_deltas clip_vals)
                           (points_from mem i coords angles)))
       img"
proof (induction coords arbitrary: i img)
  case Nil
  show ?case by (simp add: points_from_Nil)
next
  case (Cons p coords)
  let ?ang = "angle_at mem angles i"
  show ?case
  proof (cases "spec_keeps ar base inv_deltas clip_vals (p, ?ang)")
    case True
    have step: "write_pixels_loop ar mem (p # coords) i angles img base inv_deltas clip_vals =
                write_pixels_loop ar mem coords (Suc i) angles
                  (spec_set_voxels [spec_indices ar base inv_deltas (p, ?ang)] img)
                  base inv_deltas clip_vals"
      using True by (simp add: spec_keeps_point spec_indices_def)
    show ?thesis
      unfolding step points_from_Cons Cons.IH using True by simp
  next
    case False
    have step: "write_pixels_loop ar mem (p # coords) i angles img base inv_deltas clip_vals =
                write_pixels_loop ar mem coords (Suc i) angles img base inv_deltas clip_vals"
      using False by (auto simp add: spec_keeps_point)
    show ?thesis
      unfolding step points_from_Cons Cons.IH using False by simp
  qed
qed

lemma write_pixels_filter:
  "write_pixels ar mem coords angles img base inv_deltas clip_vals =
     spec_set_voxels (map (spec_indices ar base inv_deltas)
                        (filter (spec_keeps ar base inv_deltas clip_vals)
                           (points_from mem 0 coords angles)))
       img"
  by (simp add: write_pixels_def write_pixels_loop_filter)

lemma confidence_loop_filter:
  "quant_and_clip_confidence_loop ar mem coords i angles img base inv_deltas clip_vals st =
     (fst st + length (filter (spec_keeps ar base inv_deltas clip_vals)
                         (points_from mem i coords angles)),
      snd st + length (filter (spec_lit mem img)
                         (map (spec_indices ar base inv_deltas)
                            (filter (spec_keeps ar base inv_deltas clip_vals)
                               (points_from mem i coords angles)))))"
proof (induction coords arbitrary: i st)
  case Nil
  show ?case by (simp add: points_from_Nil)
next
  case (Cons p coords)
  let ?ang = "angle_at mem angles i"
  show ?case
  proof (cases "spec_keeps ar base inv_deltas clip_vals (p, ?ang)")
    case True
    have step: "quant_and_clip_confidence_loop ar mem (p # coords) i angles img base inv_deltas
                  clip_vals st =
                quant_and_clip_confidence_loop ar mem coords (Suc i) angles img base inv_deltas
                  clip_vals
                  (Suc (fst st),
                   snd st + (if spec_lit mem img (spec_indices ar base inv_deltas (p, ?ang))
                             then 1 else 0))"
      using True by (simp add: spec_keeps_point spec_indices_def spec_lit_def)
    show ?thesis
      unfolding step points_from_Cons Cons.IH using True by simp
  next
    case False
    have step: "quant_and_clip_confidence_loop ar mem (p # coords) i angles img base inv_deltas
                  clip_vals st =
                quant_and_clip_confidence_loop ar mem coords (Suc i) angles img base inv_deltas
                  clip_vals st"
      using False by (auto simp add: spec_keeps_point)
    show ?thesis
      unfolding step points_from_Cons Cons.IH using False by simp
  qed
qed

lemma confidence_filter:
  "quant_and_clip_confidence ar mem coords angles img base inv_deltas clip_vals =
     (if filter (spec_keeps ar base inv_deltas clip_vals) (points_from mem 0 coords angles) = []
      then Inl ZeroDivisionError
      else Inr (real (length (filter (spec_lit mem img)
                                (map (spec_indices ar base inv_deltas)
                                   (filter (spec_keeps ar base inv_deltas clip_vals)
                                      (points_from mem 0 coords angles)))))
                / real (length (filter (spec_keeps ar base inv_deltas clip_vals)
                                  (points_from mem 0 coords angles)))))"
  by (simp add: quant_and_clip_confidence_def confidence_loop_filter)

lemmas ieee_eval = quant_def ieee_def dsub_def dmul_def dfloor_int_def round53_def bitlen.simps
  Let_def at0_def at1_def at2_def

lemmas volume_eval = image_get_def image_set_True_def offset_def int64_def wraparound_def
  frames_of_def rows_of_def columns_of_def inside_def voxel_at_def angle_at_def

lemma quant_ieee_at_base: "quant ieee b b d = 0"
  by (simp add: quant_def ieee_def dsub_def dmul_def dfloor_int_def round53_def Let_def
        bitlen.simps [of 0])

subsection \<open>Addresses in the image volume\<close>

lemma int64_id: "- (2 ^ 63) \<le> v \<Longrightarrow> v < 2 ^ 63 \<Longrightarrow> int64 v = v"
  by (simp add: int64_def sint_sbintrunc' signed_take_bit_int_eq_self)




lemma row_bounds:
  fixes y x R C :: int
  assumes "0 \<le> y" "y < R" "0 \<le> x" "x < C"
  shows "0 \<le> y * C + x" and "y * C + x < R * C"
proof -
  have C: "0 \<le> C" using assms by simp
  show "0 \<le> y * C + x" using assms C by simp
  have "y * C \<le> (R - 1) * C"
    using assms C by (intro mult_right_mono) simp_all
  then show "y * C + x < R * C" using assms by (simp add: algebra_simps)
qed

lemma offset_plain:
  assumes "0 \<le> z" and "0 \<le> y" and "y < int (rows_of img)"
      and "0 \<le> x" and "x < int (columns_of img)"
      and "(z + 1) * (int (rows_of img) * int (columns_of img)) \<le> 2 ^ 63"
  shows "offset img z y x = z * (int (rows_of img) * int (columns_of img))
                              + (y * int (columns_of img) + x)"
proof -
  let ?R = "int (rows_of img)" and ?C = "int (columns_of img)"
  let ?v = "z * (?R * ?C) + (y * ?C + x)"
  have rb: "0 \<le> y * ?C + x" "y * ?C + x < ?R * ?C"
    using row_bounds [OF assms(2-5)] by simp_all
  have "0 \<le> z * (?R * ?C)" using assms(1) by simp
  then have lo: "- (2 ^ 63) \<le> ?v" using rb by simp
  have "?v < (z + 1) * (?R * ?C)" using rb by (simp add: algebra_simps)
  then have hi: "?v < 2 ^ 63" using assms(6) by simp
  have "offset img z y x = int64 ?v"
    using assms by (simp add: offset_def wraparound_def algebra_simps)
  with int64_id [OF lo hi] show ?thesis by simp
qed



lemma offset_inside:
  assumes "0 \<le> z" and "z < int (frames_of img)" and "0 \<le> y" and "y < int (rows_of img)"
      and "0 \<le> x" and "x < int (columns_of img)"
      and "int (frames_of img * rows_of img * columns_of img) \<le> 2 ^ 63"
  shows "inside img (offset img z y x)"
    and "nat (offset img z y x div int (rows_of img * columns_of img)) = nat z"
    and "nat ((offset img z y x div int (columns_of img)) mod int (rows_of img)) = nat y"
    and "nat (offset img z y x mod int (columns_of img)) = nat x"
proof -
  let ?R = "int (rows_of img)" and ?C = "int (columns_of img)"
  let ?F = "int (frames_of img)"
  have rb: "0 \<le> y * ?C + x" "y * ?C + x < ?R * ?C"
    using row_bounds [OF assms(3-6)] by simp_all
  have RC: "0 \<le> ?R * ?C" by simp
  have "(z + 1) * (?R * ?C) \<le> ?F * (?R * ?C)"
    using assms(2) RC by (intro mult_right_mono) simp_all
  then have big: "(z + 1) * (?R * ?C) \<le> 2 ^ 63" using assms(7) by (simp add: algebra_simps)
  have off: "offset img z y x = z * (?R * ?C) + (y * ?C + x)"
    using offset_plain [OF assms(1) assms(3-6) big] .
  have "offset img z y x < (z + 1) * (?R * ?C)" unfolding off using rb by (simp add: algebra_simps)
  also have "\<dots> \<le> ?F * (?R * ?C)" by fact
  finally have "offset img z y x < int (frames_of img * rows_of img * columns_of img)"
    by (simp add: algebra_simps)
  moreover have "0 \<le> offset img z y x" unfolding off using rb assms(1) by simp
  ultimately show "inside img (offset img z y x)" by (simp add: inside_def)
  have pos: "?R * ?C \<noteq> 0" using rb by linarith
  have "(z * (?R * ?C) + (y * ?C + x)) div (?R * ?C) = z + (y * ?C + x) div (?R * ?C)"
    using pos by (rule div_mult_self3)
  also have "(y * ?C + x) div (?R * ?C) = 0"
    using rb by (rule div_pos_pos_trivial)
  finally have d1: "(z * (?R * ?C) + (y * ?C + x)) div (?R * ?C) = z" by simp
  show "nat (offset img z y x div int (rows_of img * columns_of img)) = nat z"
    unfolding off using d1 by simp
  have C: "0 < ?C" using assms(5,6) by simp
  have e: "z * (?R * ?C) + (y * ?C + x) = (z * ?R + y) * ?C + x" by (simp add: algebra_simps)
  have d2: "((z * ?R + y) * ?C + x) div ?C = z * ?R + y"
    using C assms(5,6) by (simp add: div_pos_pos_trivial)
  have d3: "(z * ?R + y) mod ?R = y" using assms(3,4) by simp
  show "nat ((offset img z y x div int (columns_of img)) mod int (rows_of img)) = nat y"
    unfolding off e d2 d3 ..
  have d4: "((z * ?R + y) * ?C + x) mod ?C = x" using assms(5,6) by simp
  show "nat (offset img z y x mod int (columns_of img)) = nat x"
    unfolding off e d4 ..
qed

lemma image_get_inside:
  assumes "0 \<le> z" and "z < int (frames_of img)" and "0 \<le> y" and "y < int (rows_of img)"
      and "0 \<le> x" and "x < int (columns_of img)"
      and "int (frames_of img * rows_of img * columns_of img) \<le> 2 ^ 63"
  shows "image_get mem img z y x = img ! nat z ! nat y ! nat x"
  using offset_inside [OF assms] by (simp add: image_get_def voxel_at_def)

lemma image_set_True_inside:
  assumes "0 \<le> z" and "z < int (frames_of img)" and "0 \<le> y" and "y < int (rows_of img)"
      and "0 \<le> x" and "x < int (columns_of img)"
      and "int (frames_of img * rows_of img * columns_of img) \<le> 2 ^ 63"
  shows "image_set_True img z y x =
           img[nat z := (img ! nat z)[nat y := (img ! nat z ! nat y)[nat x := True]]]"
  using offset_inside [OF assms] by (simp add: image_set_True_def Let_def)

subsection \<open>Clipping\<close>


text \<open>
  C2, as amended. In every floating-point arithmetic and with any content of memory,
  \<^verbatim>\<open>_quant_and_clip\<close> returns, in input order, the quantized indices of exactly the
  points, and \<^verbatim>\<open>_write_pixels\<close> sets the voxels of exactly the points, whose x index,
  as the machine computes \<^verbatim>\<open>int(np.floor((x - base[0]) * inv_deltas[0]))\<close>, lies in
  \<open>[0, clip[0])\<close> and whose y index lies in \<open>[0, clip[1])\<close>. In IEEE doubles a
  coordinate equal to the base value has index 0 (and is kept when the clip sizes are
  positive). A point whose computed index reaches the clip size is dropped; whether the
  coordinate \<open>base + clip * delta\<close> is such a point depends on how the product with
  \<open>inv_delta\<close> rounds.
\<close>

theorem quantizer_keeps_iff_in_half_open_box:
  "quant_and_clip ar mem coords angles base inv_deltas clip_vals =
     map (\<lambda>pt. int32_triple (spec_indices ar base inv_deltas pt))
       (survivors ar mem coords angles base inv_deltas clip_vals)
   \<and> write_pixels ar mem coords angles img base inv_deltas clip_vals =
       spec_set_voxels (map (spec_indices ar base inv_deltas)
                          (survivors ar mem coords angles base inv_deltas clip_vals))
         img
   \<and> quant ieee b b d = 0
   \<and> (0 < c \<and> 0 < c' \<longrightarrow> spec_keeps ieee (b, b', b'') (d, d', d'') (c, c') ((b, b'), ang))
   \<and> (c \<le> quant ar x xb xd \<longrightarrow>
        \<not> spec_keeps ar (xb, yb, zb) (xd, yd, zd) (c, c') ((x, y), ang'))
   \<and> (c' \<le> quant ar y yb yd \<longrightarrow>
        \<not> spec_keeps ar (xb, yb, zb) (xd, yd, zd) (c, c') ((x, y), ang'))"
proof -
  have edges: "quant ieee b b d = 0
     \<and> (0 < c \<and> 0 < c' \<longrightarrow> spec_keeps ieee (b, b', b'') (d, d', d'') (c, c') ((b, b'), ang))
     \<and> (c \<le> quant ar x xb xd \<longrightarrow>
          \<not> spec_keeps ar (xb, yb, zb) (xd, yd, zd) (c, c') ((x, y), ang'))
     \<and> (c' \<le> quant ar y yb yd \<longrightarrow>
          \<not> spec_keeps ar (xb, yb, zb) (xd, yd, zd) (c, c') ((x, y), ang'))"
    by (simp add: quant_ieee_at_base spec_keeps_def at0_def at1_def)
  have q: "quant_and_clip ar mem coords angles base inv_deltas clip_vals =
     map (\<lambda>pt. int32_triple (spec_indices ar base inv_deltas pt))
       (survivors ar mem coords angles base inv_deltas clip_vals)"
    unfolding survivors_def by (rule quant_and_clip_filter)
  have w: "write_pixels ar mem coords angles img base inv_deltas clip_vals =
       spec_set_voxels (map (spec_indices ar base inv_deltas)
                          (survivors ar mem coords angles base inv_deltas clip_vals))
         img"
    unfolding survivors_def by (rule write_pixels_filter)
  from q w edges show ?thesis by blast
qed

theorem quantizer_keeps_iff_in_half_open_box_witness:
  "quant_and_clip ieee zeroed
      [((0, 0), (0, 0)), ((2, 0), (0, 0)), ((1, 0), (1, 0)), ((- 1, 0), (0, 0)), ((1, - 1), (3, - 1))]
      [(0, 0), (1, 0), (2, 0), (3, 0), (4, 0)]
      ((0, 0), (0, 0), (0, 0)) ((1, 0), (1, 0), (1, 0)) (2, 2)
     = [(0, 0, 0), (1, 1, 2), (0, 1, 4)]
   \<and> write_pixels ieee zeroed
      [((0, 0), (0, 0)), ((2, 0), (0, 0)), ((1, 0), (1, 0)), ((- 1, 0), (0, 0)), ((1, - 1), (3, - 1))]
      [(0, 0), (1, 0), (2, 0), (3, 0), (4, 0)]
      (replicate 5 [[False, False], [False, False]])
      ((0, 0), (0, 0), (0, 0)) ((1, 0), (1, 0), (1, 0)) (2, 2)
     = spec_set_voxels [(0, 0, 0), (1, 1, 2), (0, 1, 4)]
         (replicate 5 [[False, False], [False, False]])
   \<and> quant ieee (3, 0) (3, 0) (1, - 1) = 0
   \<and> spec_keeps ieee ((3, 0), (0, 0), (0, 0)) ((1, - 1), (1, 0), (1, 0)) (4, 4)
        (((3, 0), (0, 0)), (0, 0))
   \<and> (4 :: int) \<le> quant ieee (5, 0) (3, 0) (2, 0)
   \<and> \<not> spec_keeps ieee ((3, 0), (0, 0), (0, 0)) ((2, 0), (1, 0), (1, 0)) (4, 4)
        (((5, 0), (5, 0)), (0, 0))
   \<and> (4 :: int) \<le> quant ieee (5, 0) (0, 0) (1, 0)"
proof -
  let ?coords = "[((0, 0), (0, 0)), ((2, 0), (0, 0)), ((1, 0), (1, 0)), ((- 1, 0), (0, 0)),
                  ((1, - 1), (3, - 1))] :: (double \<times> double) list"
  let ?angles = "[(0, 0), (1, 0), (2, 0), (3, 0), (4, 0)] :: double list"
  have kept: "survivors ieee zeroed ?coords ?angles ((0, 0), (0, 0), (0, 0))
                ((1, 0), (1, 0), (1, 0)) (2, 2)
              = [(((0, 0), (0, 0)), (0, 0)), (((1, 0), (1, 0)), (2, 0)),
                 (((1, - 1), (3, - 1)), (4, 0))]"
    by (simp add: survivors_def points_from_def spec_keeps_def ieee_eval angle_at_def)
  have idx: "map (spec_indices ieee ((0, 0), (0, 0), (0, 0)) ((1, 0), (1, 0), (1, 0)))
               [(((0, 0), (0, 0)), (0, 0)), (((1, 0), (1, 0)), (2, 0)),
                (((1, - 1), (3, - 1)), (4, 0))]
             = [(0, 0, 0), (1, 1, 2), (0, 1, 4)]"
    by (simp add: spec_indices_def ieee_eval)
  have idx32: "map (\<lambda>pt. int32_triple
                   (spec_indices ieee ((0, 0), (0, 0), (0, 0)) ((1, 0), (1, 0), (1, 0)) pt))
               [(((0, 0), (0, 0)), (0, 0)), (((1, 0), (1, 0)), (2, 0)),
                (((1, - 1), (3, - 1)), (4, 0))]
             = [(0, 0, 0), (1, 1, 2), (0, 1, 4)]"
    by (simp only: list.map, simp add: spec_indices_def int32_triple_def int32_def ieee_eval)
  have q: "quant ieee (5, 0) (3, 0) (2, 0) = 4" "quant ieee (5, 0) (0, 0) (1, 0) = 5"
    by (simp_all add: ieee_eval)
  from quantizer_keeps_iff_in_half_open_box
         [where ar = ieee and mem = zeroed and coords = ?coords and angles = ?angles
            and base = "((0, 0), (0, 0), (0, 0))" and inv_deltas = "((1, 0), (1, 0), (1, 0))"
            and clip_vals = "(2, 2)" and img = "replicate 5 [[False, False], [False, False]]"
            and b = "(3, 0)" and d = "(1, - 1)" and c = 4 and c' = 4 and b' = "(0, 0)"
            and b'' = "(0, 0)" and d' = "(1, 0)" and d'' = "(1, 0)" and ang = "(0, 0)"
            and x = "(5, 0)" and y = "(5, 0)" and xb = "(3, 0)" and xd = "(2, 0)"
            and yb = "(0, 0)" and yd = "(1, 0)" and zb = "(0, 0)" and zd = "(1, 0)"
            and ang' = "(0, 0)"]
  show ?thesis unfolding kept idx idx32 q by simp
qed

text \<open>
  C2 as stated fails at the upper edge. For a detector of 2048 columns of 0.00148 mm set up
  as \<^verbatim>\<open>mockup_experiment\<close> does, the base \<^verbatim>\<open>x_col_edges[0]\<close> is
  \<open>- 3412647653636267 / 2 ^ 51\<close>, the quantum \<^verbatim>\<open>x_col_edges[1] - x_col_edges[0]\<close>
  is \<open>1666331862127 / 2 ^ 50\<close>, and \<^verbatim>\<open>inv_deltas[0] = 1.0 / deltas[0]\<close> is
  \<open>23216039437839 / 2 ^ 35\<close>, the double nearest to the inverse of the quantum (fourth
  conjunct). The coordinate \<open>base + 2048 * delta\<close> is the double
  \<open>3412647653635925 / 2 ^ 51\<close> (third conjunct); its distance to the base times
  \<open>inv_delta\<close> rounds to a double below 2048, so its index is 2047 and the point is kept.
  Moreover the index is the floor of the rounded product, not of the exact one: at base
  \<open>- 1\<close> and \<open>inv_delta = 1\<close> the coordinate \<open>- 1 / 2 ^ 60\<close> has index 1 where the
  exact floor is 0.
\<close>

theorem upper_edge_coordinate_kept:
  "quant ieee (3412647653635925, - 51) (- 3412647653636267, - 51) (23216039437839, - 35) = 2047
   \<and> quant_and_clip ieee zeroed [((3412647653635925, - 51), (0, 0))] [(0, 0)]
        ((- 3412647653636267, - 51), (0, 0), (0, 0)) ((23216039437839, - 35), (1, 0), (1, 0))
        (2048, 2048)
      = [(2047, 0, 0)]
   \<and> (3412647653635925 :: int) = - 3412647653636267 + 2048 * (2 * 1666331862127)
   \<and> \<bar>(23216039437839 :: int) * 1666331862127 * 2 ^ 9 - 2 ^ 94\<bar> \<le> 1666331862127
   \<and> quant ieee (- 1, - 60) (- 1, 0) (1, 0) = 1
   \<and> \<lfloor>(- 1 / 2 ^ 60 - (- 1)) * 1 :: real\<rfloor> = 0"
  by (simp add: quant_and_clip_def ieee_eval int32_def angle_at_def zeroed_def floor_eq_iff)

text \<open>
  C1. The specification asks for a defined fallback value when no reflection survives
  clipping. \<^verbatim>\<open>_quant_and_clip_confidence\<close> has none: with one point outside the
  detector, and with no point at all, \<^verbatim>\<open>in_sensor\<close> stays 0 and the final division
  raises \<^verbatim>\<open>ZeroDivisionError\<close>. Lemma \<open>confidence_none_kept_raises\<close> below says the
  same of every input without a surviving reflection.
\<close>

theorem confidence_zero_survivors_raises:
  "quant_and_clip_confidence ieee mem [((5, 0), (5, 0))] [(0, 0)] [[[True]]]
      ((0, 0), (0, 0), (0, 0)) ((1, 0), (1, 0), (1, 0)) (1, 1)
     = Inl ZeroDivisionError
   \<and> quant_and_clip_confidence ar mem [] [] [[[True]]] base inv_deltas clip_vals
     = Inl ZeroDivisionError"
  by (simp add: quant_and_clip_confidence_def ieee_eval)

lemma confidence_none_kept_raises:
  "survivors ar mem coords angles base inv_deltas clip_vals = [] \<Longrightarrow>
   quant_and_clip_confidence ar mem coords angles img base inv_deltas clip_vals
     = Inl ZeroDivisionError"
  by (simp add: confidence_filter survivors_def)

lemma confidence_of_survivors:
  assumes "survivors ar mem coords angles base inv_deltas clip_vals \<noteq> []"
  shows "\<exists>c. quant_and_clip_confidence ar mem coords angles img base inv_deltas clip_vals = Inr c
           \<and> 0 \<le> c \<and> c \<le> 1"
proof -
  let ?kept = "filter (spec_keeps ar base inv_deltas clip_vals) (points_from mem 0 coords angles)"
  let ?lit = "filter (spec_lit mem img) (map (spec_indices ar base inv_deltas) ?kept)"
  have ne: "?kept \<noteq> []" using assms by (simp add: survivors_def)
  then have pos: "0 < length ?kept" by simp
  have "length ?lit \<le> length (map (spec_indices ar base inv_deltas) ?kept)"
    by (rule length_filter_le)
  then have le: "length ?lit \<le> length ?kept" by simp
  have run: "quant_and_clip_confidence ar mem coords angles img base inv_deltas clip_vals
               = Inr (real (length ?lit) / real (length ?kept))"
    using ne by (simp add: confidence_filter)
  have "0 \<le> real (length ?lit) / real (length ?kept)" by simp
  moreover have "real (length ?lit) / real (length ?kept) \<le> 1"
    using le pos by simp
  ultimately show ?thesis using run by blast
qed

lemma confidence_value_bounds:
  assumes "quant_and_clip_confidence ar mem coords angles img base inv_deltas clip_vals = Inr c"
  shows "0 \<le> c \<and> c \<le> 1"
proof (cases "survivors ar mem coords angles base inv_deltas clip_vals = []")
  case True
  from confidence_none_kept_raises [OF True, of img] assms show ?thesis by simp
next
  case False
  from confidence_of_survivors [OF False, of img] assms show ?thesis by auto
qed

subsection \<open>Angle axis\<close>




subsection \<open>Confidence matrix\<close>

lemma lit_voxel_confidence:
  "quant_and_clip_confidence ieee mem [((0, 0), (0, 0))] [(0, 0)] [[[True]]]
      ((0, 0), (0, 0), (0, 0)) ((1, 0), (1, 0), (1, 0)) (1, 1) = Inr 1"
  by (simp add: quant_and_clip_confidence_def ieee_eval volume_eval)

lemma set_cell_shape:
  "set_cell conf g i c = Inr conf' \<Longrightarrow> map length conf' = map length conf"
  by (auto simp add: set_cell_def map_update list_update_same_conv split: if_splits)

lemma set_cell_nth:
  assumes "set_cell conf g i c = Inr conf'"
  shows "g < length conf \<and> i < length (conf ! g)
       \<and> conf' ! g' ! i' = (if g' = g \<and> i' = i then Some c else conf ! g' ! i')"
proof -
  from assms have ok: "g < length conf" "i < length (conf ! g)"
    and eq: "conf' = conf[g := (conf ! g)[i := Some c]]"
    by (auto simp add: set_cell_def split: if_splits)
  show ?thesis
  proof (cases "g' = g")
    case True
    with ok eq show ?thesis by (cases "i' = i") simp_all
  next
    case False
    with ok eq show ?thesis by simp
  qed
qed

lemma set_cell_defined:
  "g < length conf \<Longrightarrow> i < length (conf ! g) \<Longrightarrow> \<exists>conf'. set_cell conf g i c = Inr conf'"
  by (simp add: set_cell_def)

lemma shape_nth:
  "map length a = map length b \<Longrightarrow> length a = length b \<and> (g < length a \<longrightarrow> length (a ! g) = length (b ! g))"
  by (metis length_map nth_map)

lemma then_do_Inr:
  "then_do r f = Inr y \<Longrightarrow> \<exists>v. r = Inr v \<and> f v = Inr y"
  by (cases r) (simp_all add: then_do_def)

lemma grand_loop_cell_Inr:
  assumes "grand_loop_cell ar mem project image_stack angles coords exper cell conf = Inr conf1"
  shows "\<exists>c. cell_confidence ar mem project image_stack angles coords exper cell = Inr c
           \<and> set_cell conf (snd cell) (fst cell) c = Inr conf1"
  using then_do_Inr [OF assms [unfolded grand_loop_cell_def]] .

lemma for_each_cells_result:
  assumes "for_each (grand_loop_cell ar mem project image_stack angles coords exper) cells conf
             = Inr conf'"
  shows "map length conf' = map length conf
       \<and> (\<forall>cell \<in> set cells.
             (\<exists>c. cell_confidence ar mem project image_stack angles coords exper cell = Inr c)
             \<and> snd cell < length conf \<and> fst cell < length (conf ! snd cell))
       \<and> (\<forall>g i. conf' ! g ! i =
             (if (i, g) \<in> set cells
              then Some (projr (cell_confidence ar mem project image_stack angles coords exper (i, g)))
              else conf ! g ! i))"
  using assms
proof (induction cells arbitrary: conf)
  case Nil
  then show ?case by simp
next
  case (Cons cell cells)
  let ?V = "cell_confidence ar mem project image_stack angles coords exper"
  from Cons.prems obtain conf1 where
    step: "grand_loop_cell ar mem project image_stack angles coords exper cell conf = Inr conf1"
    and rest: "for_each (grand_loop_cell ar mem project image_stack angles coords exper) cells conf1
                 = Inr conf'"
    using then_do_Inr by (metis for_each.simps(2))
  from grand_loop_cell_Inr [OF step] obtain c where
    v: "?V cell = Inr c" and w: "set_cell conf (snd cell) (fst cell) c = Inr conf1"
    by blast
  have shape1: "map length conf1 = map length conf" using set_cell_shape [OF w] .
  have inside: "snd cell < length conf" "fst cell < length (conf ! snd cell)"
    using set_cell_nth [OF w] by simp_all
  have nth1: "conf1 ! g ! i = (if g = snd cell \<and> i = fst cell then Some c else conf ! g ! i)"
    for g i
    using set_cell_nth [OF w, of g i] by simp
  from Cons.IH [OF rest] have
    shape': "map length conf' = map length conf1"
    and ok: "\<forall>cl \<in> set cells. (\<exists>c. ?V cl = Inr c)
               \<and> snd cl < length conf1 \<and> fst cl < length (conf1 ! snd cl)"
    and nth': "\<forall>g i. conf' ! g ! i =
                 (if (i, g) \<in> set cells then Some (projr (?V (i, g))) else conf1 ! g ! i)"
    by blast+
  have a: "map length conf' = map length conf" using shape' shape1 by simp
  have b: "\<forall>cl \<in> set (cell # cells). (\<exists>c. ?V cl = Inr c)
             \<and> snd cl < length conf \<and> fst cl < length (conf ! snd cl)"
  proof
    fix cl assume cl: "cl \<in> set (cell # cells)"
    show "(\<exists>c. ?V cl = Inr c) \<and> snd cl < length conf \<and> fst cl < length (conf ! snd cl)"
    proof (cases "cl = cell")
      case True
      with v inside show ?thesis by simp
    next
      case False
      with cl have "cl \<in> set cells" by simp
      with ok have h: "(\<exists>c. ?V cl = Inr c)" "snd cl < length conf1"
        "fst cl < length (conf1 ! snd cl)" by blast+
      from shape_nth [OF shape1, of "snd cl"] h show ?thesis by simp
    qed
  qed
  have c: "\<forall>g i. conf' ! g ! i =
             (if (i, g) \<in> set (cell # cells) then Some (projr (?V (i, g))) else conf ! g ! i)"
  proof (intro allI)
    fix g i
    show "conf' ! g ! i =
             (if (i, g) \<in> set (cell # cells) then Some (projr (?V (i, g))) else conf ! g ! i)"
    proof (cases "(i, g) \<in> set cells")
      case True
      with nth' show ?thesis by simp
    next
      case False
      then have "conf' ! g ! i = conf1 ! g ! i" using nth' by simp
      also have "\<dots> = (if g = snd cell \<and> i = fst cell then Some c else conf ! g ! i)"
        using nth1 .
      finally show ?thesis using False v by (cases cell) auto
    qed
  qed
  from a b c show ?case by blast
qed

lemma for_each_cells_defined:
  assumes "\<forall>cell \<in> set cells.
             (\<exists>c. cell_confidence ar mem project image_stack angles coords exper cell = Inr c)
             \<and> snd cell < length conf \<and> fst cell < length (conf ! snd cell)"
  shows "\<exists>conf'. for_each (grand_loop_cell ar mem project image_stack angles coords exper) cells conf
                   = Inr conf'"
  using assms
proof (induction cells arbitrary: conf)
  case Nil
  show ?case by simp
next
  case (Cons cell cells)
  let ?V = "cell_confidence ar mem project image_stack angles coords exper"
  from Cons.prems obtain c where v: "?V cell = Inr c"
    and inside: "snd cell < length conf" "fst cell < length (conf ! snd cell)"
    by auto
  from set_cell_defined [OF inside] obtain conf1 where
    w: "set_cell conf (snd cell) (fst cell) c = Inr conf1" by blast
  have shape1: "map length conf1 = map length conf" using set_cell_shape [OF w] .
  have ok: "\<forall>cl \<in> set cells. (\<exists>c. ?V cl = Inr c)
              \<and> snd cl < length conf1 \<and> fst cl < length (conf1 ! snd cl)"
  proof
    fix cl assume "cl \<in> set cells"
    with Cons.prems have h: "(\<exists>c. ?V cl = Inr c)" "snd cl < length conf"
      "fst cl < length (conf ! snd cl)" by simp_all
    from shape_nth [OF shape1, of "snd cl"] h
    show "(\<exists>c. ?V cl = Inr c) \<and> snd cl < length conf1 \<and> fst cl < length (conf1 ! snd cl)"
      by simp
  qed
  from Cons.IH [OF ok] obtain conf' where
    rest: "for_each (grand_loop_cell ar mem project image_stack angles coords exper) cells conf1
             = Inr conf'"
    by blast
  have step: "grand_loop_cell ar mem project image_stack angles coords exper cell conf = Inr conf1"
    using v w by (simp add: then_do_def grand_loop_cell_def)
  show ?case using step rest by (simp add: then_do_def)
qed

lemma for_each_cells_order:
  assumes same: "set cells' = set cells"
      and run: "for_each (grand_loop_cell ar mem project image_stack angles coords exper) cells conf
                  = Inr m"
  shows "for_each (grand_loop_cell ar mem project image_stack angles coords exper) cells' conf = Inr m"
proof -
  let ?V = "cell_confidence ar mem project image_stack angles coords exper"
  from for_each_cells_result [OF run] have
    shape: "map length m = map length conf"
    and ok: "\<forall>cell \<in> set cells. (\<exists>c. ?V cell = Inr c)
               \<and> snd cell < length conf \<and> fst cell < length (conf ! snd cell)"
    and nth: "\<forall>g i. m ! g ! i =
                (if (i, g) \<in> set cells then Some (projr (?V (i, g))) else conf ! g ! i)"
    by blast+
  from ok same have ok': "\<forall>cell \<in> set cells'. (\<exists>c. ?V cell = Inr c)
               \<and> snd cell < length conf \<and> fst cell < length (conf ! snd cell)"
    by simp
  from for_each_cells_defined [OF ok'] obtain m' where
    run': "for_each (grand_loop_cell ar mem project image_stack angles coords exper) cells' conf
             = Inr m'"
    by blast
  from for_each_cells_result [OF run'] have
    shape': "map length m' = map length conf"
    and nth': "\<forall>g i. m' ! g ! i =
                (if (i, g) \<in> set cells' then Some (projr (?V (i, g))) else conf ! g ! i)"
    by blast+
  have sh: "map length m' = map length m" using shape shape' by simp
  have "m' = m"
  proof (rule nth_equalityI)
    show "length m' = length m" using shape_nth [OF sh] by simp
  next
    fix g assume g: "g < length m'"
    show "m' ! g = m ! g"
    proof (rule nth_equalityI)
      show "length (m' ! g) = length (m ! g)" using shape_nth [OF sh, of g] g by simp
    next
      fix i assume "i < length (m' ! g)"
      show "m' ! g ! i = m ! g ! i" using nth nth' same by simp
    qed
  qed
  with run' show ?thesis by simp
qed

lemma for_each_concat:
  "for_each (\<lambda>x. for_each body (cells_of x)) xs s = for_each body (concat (map cells_of xs)) s"
proof (induction xs arbitrary: s)
  case Nil
  show ?case by simp
next
  case (Cons x xs)
  have app: "for_each body (ys @ zs) t = then_do (for_each body ys t) (for_each body zs)"
    for ys zs t
    by (induction ys arbitrary: t) (simp_all add: then_do_def split: sum.splits)
  show ?case using Cons.IH by (simp add: app then_do_def split: sum.splits)
qed

lemma cell_confidence_Inr:
  assumes "cell_confidence ar mem project image_stack angles coords exper cell = Inr c"
  shows "\<exists>det_xy omes. quant_and_clip_confidence ar mem det_xy omes image_stack (exp_base exper)
            (exp_inv_deltas exper) (exp_clip_vals exper) = Inr c"
proof -
  from then_do_Inr [OF assms [unfolded cell_confidence_def]] obtain angs where
    r1: "then_do (get_item (rMat_c exper) (snd cell)) (\<lambda>rC.
           then_do (get_item coords (fst cell)) (\<lambda>crd.
             quant_and_clip_confidence ar mem (project angs rC crd) (map (\<lambda>t. snd (snd t)) angs)
               image_stack (exp_base exper) (exp_inv_deltas exper) (exp_clip_vals exper)))
         = Inr c"
    by blast
  from then_do_Inr [OF r1] obtain rC where
    r2: "then_do (get_item coords (fst cell)) (\<lambda>crd.
             quant_and_clip_confidence ar mem (project angs rC crd) (map (\<lambda>t. snd (snd t)) angs)
               image_stack (exp_base exper) (exp_inv_deltas exper) (exp_clip_vals exper))
         = Inr c"
    by blast
  from then_do_Inr [OF r2] show ?thesis by blast
qed

lemma grand_loop_inner_bounds:
  assumes "grand_loop_inner ar mem project conf image_stack angles coords exper start stop = Inr conf'"
  shows "\<forall>g i v. conf' ! g ! i = Some v \<longrightarrow> conf ! g ! i = Some v \<or> (0 \<le> v \<and> v \<le> 1)"
proof (intro allI impI)
  fix g i v assume cell: "conf' ! g ! i = Some v"
  let ?V = "cell_confidence ar mem project image_stack angles coords exper"
  let ?cells = "List.product [start ..< (case stop of None \<Rightarrow> length coords | Some n \<Rightarrow> n)]
                  [0 ..< length angles]"
  from for_each_cells_result [OF assms [unfolded grand_loop_inner_def]] have
    ok: "\<forall>cl \<in> set ?cells. (\<exists>c. ?V cl = Inr c)"
    and nth: "conf' ! g ! i = (if (i, g) \<in> set ?cells then Some (projr (?V (i, g)))
                               else conf ! g ! i)"
    by blast+
  show "conf ! g ! i = Some v \<or> (0 \<le> v \<and> v \<le> 1)"
  proof (cases "(i, g) \<in> set ?cells")
    case False
    with nth have "conf' ! g ! i = conf ! g ! i" by (simp only: if_False)
    with cell show ?thesis by simp
  next
    case True
    with ok obtain c where c: "?V (i, g) = Inr c" by blast
    from nth True have "conf' ! g ! i = Some (projr (?V (i, g)))" by (simp only: if_True)
    with cell c have "v = c" by simp
    with cell_confidence_Inr [OF c] confidence_value_bounds show ?thesis by blast
  qed
qed

lemma cell_confidence_of_survivors:
  assumes "snd cell < length angles" and "snd cell < length (rMat_c exper)"
      and "fst cell < length coords"
      and "cell_survivors ar mem project angles coords exper cell \<noteq> []"
  shows "\<exists>c. cell_confidence ar mem project image_stack angles coords exper cell = Inr c
           \<and> 0 \<le> c \<and> c \<le> 1"
proof -
  have "cell_confidence ar mem project image_stack angles coords exper cell =
          quant_and_clip_confidence ar mem
            (project (angles ! snd cell) (rMat_c exper ! snd cell) (coords ! fst cell))
            (map (\<lambda>t. snd (snd t)) (angles ! snd cell))
            image_stack (exp_base exper) (exp_inv_deltas exper) (exp_clip_vals exper)"
    using assms(1-3) by (simp add: cell_confidence_def get_item_def then_do_def)
  with confidence_of_survivors [OF assms(4) [unfolded cell_survivors_def], of image_stack]
  show ?thesis by simp
qed

lemma grand_loop_inner_of_survivors:
  assumes "\<forall>i g. start \<le> i \<and> i < stop \<and> g < length angles \<longrightarrow>
             g < length (rMat_c exper) \<and> i < length coords
             \<and> g < length conf \<and> i < length (conf ! g)
             \<and> cell_survivors ar mem project angles coords exper (i, g) \<noteq> []"
  shows "\<exists>conf'. grand_loop_inner ar mem project conf image_stack angles coords exper start
                    (Some stop) = Inr conf'
           \<and> (\<forall>i g. start \<le> i \<and> i < stop \<and> g < length angles \<longrightarrow>
                  (\<exists>v. conf' ! g ! i = Some v \<and> 0 \<le> v \<and> v \<le> 1))"
proof -
  let ?V = "cell_confidence ar mem project image_stack angles coords exper"
  let ?cells = "List.product [start ..< stop] [0 ..< length angles]"
  have cells: "(cl \<in> set ?cells) = (start \<le> fst cl \<and> fst cl < stop \<and> snd cl < length angles)"
    for cl :: "nat \<times> nat"
    by (cases cl) auto
  have val_ok: "\<exists>c. ?V cl = Inr c \<and> 0 \<le> c \<and> c \<le> 1" if "cl \<in> set ?cells" for cl
  proof -
    from that have r: "start \<le> fst cl" "fst cl < stop" "snd cl < length angles"
      by (simp_all only: cells)
    with assms have h: "snd cl < length (rMat_c exper)" "fst cl < length coords"
      "cell_survivors ar mem project angles coords exper (fst cl, snd cl) \<noteq> []"
      by blast+
    from cell_confidence_of_survivors [OF r(3) h(1) h(2), of ar mem project image_stack] h(3)
    show ?thesis by simp
  qed
  have ok: "\<forall>cl \<in> set ?cells. (\<exists>c. ?V cl = Inr c)
              \<and> snd cl < length conf \<and> fst cl < length (conf ! snd cl)"
  proof
    fix cl assume cl: "cl \<in> set ?cells"
    then have r: "start \<le> fst cl" "fst cl < stop" "snd cl < length angles"
      by (simp_all only: cells)
    with assms have "snd cl < length conf" "fst cl < length (conf ! snd cl)" by blast+
    with val_ok [OF cl]
    show "(\<exists>c. ?V cl = Inr c) \<and> snd cl < length conf \<and> fst cl < length (conf ! snd cl)"
      by blast
  qed
  from for_each_cells_defined [OF ok] obtain conf' where
    run: "for_each (grand_loop_cell ar mem project image_stack angles coords exper) ?cells conf
            = Inr conf'"
    by blast
  from for_each_cells_result [OF run] have
    nth: "\<forall>g i. conf' ! g ! i =
            (if (i, g) \<in> set ?cells then Some (projr (?V (i, g))) else conf ! g ! i)"
    by blast
  have written: "\<exists>v. conf' ! g ! i = Some v \<and> 0 \<le> v \<and> v \<le> 1"
    if "start \<le> i \<and> i < stop \<and> g < length angles" for i g
  proof -
    from that have cl: "(i, g) \<in> set ?cells" by (simp only: cells fst_conv snd_conv)
    from val_ok [OF cl] obtain c where c: "?V (i, g) = Inr c" "0 \<le> c" "c \<le> 1" by blast
    from nth cl have "conf' ! g ! i = Some (projr (?V (i, g)))" by (simp only: if_True)
    with c show ?thesis by simp
  qed
  have "grand_loop_inner ar mem project conf image_stack angles coords exper start (Some stop)
          = Inr conf'"
    using run by (simp add: grand_loop_inner_def)
  with written show ?thesis by blast
qed

lemma single_voxel_run:
  "grand_loop_inner ieee mem (\<lambda>angs rC crd. [((0, 0), (0, 0))]) [[None]] [[[True]]]
      [[((0, 0), (0, 0), (0, 0))]] [(), ()]
      \<lparr>n_grains = 1, rMat_c = [()], nframes = 1, nrows = 1, ncols = 1,
       exp_base = ((0, 0), (0, 0), (0, 0)), exp_inv_deltas = ((1, 0), (1, 0), (1, 0)),
       exp_clip_vals = (1, 1), row_dilation = 0, col_dilation = 0\<rparr> 0 (Some 1)
     = Inr [[Some 1]]"
proof -
  define project where
    "project = (\<lambda>(angs :: (double \<times> double \<times> double) list) (rC :: unit) (crd :: unit).
                    [((0, 0), (0, 0)) :: double \<times> double])"
  define exper :: "(double, unit) nf_experiment" where
    "exper = \<lparr>n_grains = 1, rMat_c = [()], nframes = 1, nrows = 1, ncols = 1,
       exp_base = ((0, 0), (0, 0), (0, 0)), exp_inv_deltas = ((1, 0), (1, 0), (1, 0)),
       exp_clip_vals = (1, 1), row_dilation = 0, col_dilation = 0\<rparr>"
  have fields: "rMat_c exper = [()]" "exp_base exper = ((0, 0), (0, 0), (0, 0))"
    "exp_inv_deltas exper = ((1, 0), (1, 0), (1, 0))" "exp_clip_vals exper = (1, 1)"
    by (simp_all add: exper_def)
  have cell: "grand_loop_cell ieee mem project [[[True]]] [[((0, 0), (0, 0), (0, 0))]] [(), ()]
                exper (0, 0) conf
                 = set_cell conf 0 0 1" for conf
    by (simp add: grand_loop_cell_def cell_confidence_def then_do_def get_item_def
          lit_voxel_confidence fields project_def)
  have "grand_loop_inner ieee mem project [[None]] [[[True]]] [[((0, 0), (0, 0), (0, 0))]]
          [(), ()] exper 0 (Some 1)
          = Inr [[Some 1]]"
    by (simp add: grand_loop_inner_def cell then_do_def set_cell_def)
  then show ?thesis unfolding project_def exper_def .
qed

text \<open>
  C3. When at least one reflection survives clipping, \<^verbatim>\<open>_quant_and_clip_confidence\<close>
  returns a value, and that value lies between 0 and 1 inclusive, in every floating-point
  arithmetic and whatever memory holds outside the arrays (which it reads for a frame index
  outside the volume). Hence, if every cell of a chunk has a surviving reflection and its
  indices lie inside the tables and the matrix, \<^verbatim>\<open>_grand_loop_inner\<close> returns and
  every cell of the chunk then holds a score between 0 and 1. And whenever
  \<^verbatim>\<open>_grand_loop_inner\<close> returns, a cell of the matrix that holds a score either held
  that score before the call or holds a value between 0 and 1.
\<close>

theorem confidence_in_unit_interval:
  "(survivors ar mem coords angles base inv_deltas clip_vals \<noteq> [] \<longrightarrow>
      (\<exists>c. quant_and_clip_confidence ar mem coords angles img base inv_deltas clip_vals = Inr c
           \<and> 0 \<le> c \<and> c \<le> 1))
   \<and> ((\<forall>i g. start \<le> i \<and> i < stop \<and> g < length all_angles \<longrightarrow>
          g < length (rMat_c exper) \<and> i < length test_crds
          \<and> g < length conf \<and> i < length (conf ! g)
          \<and> cell_survivors ar mem project all_angles test_crds exper (i, g) \<noteq> []) \<longrightarrow>
       (\<exists>conf'. grand_loop_inner ar mem project conf image_stack all_angles test_crds exper
                   start (Some stop) = Inr conf'
          \<and> (\<forall>i g. start \<le> i \<and> i < stop \<and> g < length all_angles \<longrightarrow>
                 (\<exists>v. conf' ! g ! i = Some v \<and> 0 \<le> v \<and> v \<le> 1))))
   \<and> (grand_loop_inner ar mem project conf image_stack all_angles test_crds exper start stop'
         = Inr conf'' \<longrightarrow>
       (\<forall>g i v. conf'' ! g ! i = Some v \<longrightarrow> conf ! g ! i = Some v \<or> (0 \<le> v \<and> v \<le> 1)))"
proof -
  have a: "survivors ar mem coords angles base inv_deltas clip_vals \<noteq> [] \<longrightarrow>
      (\<exists>c. quant_and_clip_confidence ar mem coords angles img base inv_deltas clip_vals = Inr c
           \<and> 0 \<le> c \<and> c \<le> 1)"
    using confidence_of_survivors [of ar mem coords angles base inv_deltas clip_vals img]
    by blast
  have b: "(\<forall>i g. start \<le> i \<and> i < stop \<and> g < length all_angles \<longrightarrow>
          g < length (rMat_c exper) \<and> i < length test_crds
          \<and> g < length conf \<and> i < length (conf ! g)
          \<and> cell_survivors ar mem project all_angles test_crds exper (i, g) \<noteq> []) \<longrightarrow>
       (\<exists>conf'. grand_loop_inner ar mem project conf image_stack all_angles test_crds exper
                   start (Some stop) = Inr conf'
          \<and> (\<forall>i g. start \<le> i \<and> i < stop \<and> g < length all_angles \<longrightarrow>
                 (\<exists>v. conf' ! g ! i = Some v \<and> 0 \<le> v \<and> v \<le> 1)))"
    using grand_loop_inner_of_survivors
            [of start stop all_angles exper test_crds conf ar mem project image_stack]
    by blast
  have c: "grand_loop_inner ar mem project conf image_stack all_angles test_crds exper start stop'
         = Inr conf'' \<longrightarrow>
       (\<forall>g i v. conf'' ! g ! i = Some v \<longrightarrow> conf ! g ! i = Some v \<or> (0 \<le> v \<and> v \<le> 1))"
    using grand_loop_inner_bounds
            [of ar mem project conf image_stack all_angles test_crds exper start stop' conf'']
    by blast
  from a b c show ?thesis by blast
qed

theorem confidence_in_unit_interval_witness:
  "(\<exists>c. quant_and_clip_confidence ieee zeroed [((0, 0), (0, 0)), ((0, 0), (0, 0))]
          [(1, 0), (0, 0)] [[[True]], [[False]]]
          ((0, 0), (0, 0), (0, 0)) ((1, 0), (1, 0), (1, 0)) (1, 1) = Inr c
        \<and> 0 \<le> c \<and> c \<le> 1)
   \<and> quant_and_clip_confidence ieee zeroed [((0, 0), (0, 0)), ((0, 0), (0, 0))]
        [(1, 0), (0, 0)] [[[True]], [[False]]]
        ((0, 0), (0, 0), (0, 0)) ((1, 0), (1, 0), (1, 0)) (1, 1) = Inr (1 / 2)
   \<and> (\<exists>conf'. grand_loop_inner ieee zeroed (\<lambda>angs rC crd. [((0, 0), (0, 0))]) [[None]]
                 [[[True]]] [[((0, 0), (0, 0), (0, 0))]] [(), ()]
                 \<lparr>n_grains = 1, rMat_c = [()], nframes = 1, nrows = 1, ncols = 1,
                  exp_base = ((0, 0), (0, 0), (0, 0)),
                  exp_inv_deltas = ((1, 0), (1, 0), (1, 0)),
                  exp_clip_vals = (1, 1), row_dilation = 0, col_dilation = 0\<rparr> 0 (Some 1)
               = Inr conf'
             \<and> (\<exists>v. conf' ! 0 ! 0 = Some v \<and> 0 \<le> v \<and> v \<le> 1))
   \<and> grand_loop_inner ieee zeroed (\<lambda>angs rC crd. [((0, 0), (0, 0))]) [[None]]
        [[[True]]] [[((0, 0), (0, 0), (0, 0))]] [(), ()]
        \<lparr>n_grains = 1, rMat_c = [()], nframes = 1, nrows = 1, ncols = 1,
         exp_base = ((0, 0), (0, 0), (0, 0)), exp_inv_deltas = ((1, 0), (1, 0), (1, 0)),
         exp_clip_vals = (1, 1), row_dilation = 0, col_dilation = 0\<rparr> 0 (Some 1)
       = Inr [[Some 1]]"
proof -
  define project where
    "project = (\<lambda>(angs :: (double \<times> double \<times> double) list) (rC :: unit) (crd :: unit).
                    [((0, 0), (0, 0)) :: double \<times> double])"
  define exper :: "(double, unit) nf_experiment" where
    "exper = \<lparr>n_grains = 1, rMat_c = [()], nframes = 1, nrows = 1, ncols = 1,
       exp_base = ((0, 0), (0, 0), (0, 0)), exp_inv_deltas = ((1, 0), (1, 0), (1, 0)),
       exp_clip_vals = (1, 1), row_dilation = 0, col_dilation = 0\<rparr>"
  have fields: "rMat_c exper = [()]" "exp_base exper = ((0, 0), (0, 0), (0, 0))"
    "exp_inv_deltas exper = ((1, 0), (1, 0), (1, 0))" "exp_clip_vals exper = (1, 1)"
    by (simp_all add: exper_def)
  have kept: "survivors ieee zeroed [((0, 0), (0, 0)), ((0, 0), (0, 0))] [(1, 0), (0, 0)]
                ((0, 0), (0, 0), (0, 0)) ((1, 0), (1, 0), (1, 0)) (1, 1) \<noteq> []"
    by (simp add: survivors_def points_from_def spec_keeps_def ieee_eval angle_at_def)
  have cellkept: "cell_survivors ieee zeroed project [[((0, 0), (0, 0), (0, 0))]] [(), ()] exper
                    (0, 0) \<noteq> []"
    by (simp add: cell_survivors_def fields project_def survivors_def points_from_def
          spec_keeps_def ieee_eval angle_at_def)
  have ready: "\<forall>i g. 0 \<le> i \<and> i < 1 \<and> g < length [[((0, 0), (0, 0), (0, 0)) :: double \<times> double \<times> double]] \<longrightarrow>
          g < length (rMat_c exper) \<and> i < length [(), ()]
          \<and> g < length [[None :: real option]] \<and> i < length ([[None :: real option]] ! g)
          \<and> cell_survivors ieee zeroed project [[((0, 0), (0, 0), (0, 0))]] [(), ()] exper (i, g)
              \<noteq> []"
    using cellkept by (simp add: fields)
  have half: "quant_and_clip_confidence ieee zeroed [((0, 0), (0, 0)), ((0, 0), (0, 0))]
        [(1, 0), (0, 0)] [[[True]], [[False]]]
        ((0, 0), (0, 0), (0, 0)) ((1, 0), (1, 0), (1, 0)) (1, 1) = Inr (1 / 2)"
    by (simp add: quant_and_clip_confidence_def ieee_eval volume_eval)
  have run: "grand_loop_inner ieee zeroed project [[None]]
        [[[True]]] [[((0, 0), (0, 0), (0, 0))]] [(), ()] exper 0 (Some 1) = Inr [[Some 1]]"
    using single_voxel_run [of zeroed] unfolding project_def exper_def .
  from confidence_in_unit_interval
         [where ar = ieee and mem = zeroed
            and coords = "[((0, 0), (0, 0)), ((0, 0), (0, 0))]" and angles = "[(1, 0), (0, 0)]"
            and base = "((0, 0), (0, 0), (0, 0))" and inv_deltas = "((1, 0), (1, 0), (1, 0))"
            and clip_vals = "(1, 1)" and img = "[[[True]], [[False]]]"
            and start = 0 and stop = 1 and all_angles = "[[((0, 0), (0, 0), (0, 0))]]"
            and exper = exper and test_crds = "[(), ()]" and conf = "[[None]]"
            and project = project and image_stack = "[[[True]]]"
            and stop' = "Some 1" and conf'' = "[[Some 1]]"]
       kept ready
  have "(\<exists>c. quant_and_clip_confidence ieee zeroed [((0, 0), (0, 0)), ((0, 0), (0, 0))]
          [(1, 0), (0, 0)] [[[True]], [[False]]]
          ((0, 0), (0, 0), (0, 0)) ((1, 0), (1, 0), (1, 0)) (1, 1) = Inr c
        \<and> 0 \<le> c \<and> c \<le> 1)
     \<and> (\<exists>conf'. grand_loop_inner ieee zeroed project [[None]]
                 [[[True]]] [[((0, 0), (0, 0), (0, 0))]] [(), ()] exper 0 (Some 1)
               = Inr conf'
             \<and> (\<exists>v. conf' ! 0 ! 0 = Some v \<and> 0 \<le> v \<and> v \<le> 1))"
    by auto
  with half run show ?thesis unfolding project_def exper_def by blast
qed

text \<open>
  The order of the chunks does not matter to \<^verbatim>\<open>_grand_loop_inner\<close>: if running the
  chunks in one order returns a matrix, running them in any order that visits the same
  chunks returns the same matrix, whatever rule gives each chunk its stop.
\<close>

lemma chunk_order_irrelevant:
  assumes same: "set order = set chunks"
      and run: "for_each (\<lambda>chunk conf. grand_loop_inner ar mem project conf image_stack angles coords
                    exper chunk (Some (stop_of chunk))) chunks conf = Inr m"
  shows "for_each (\<lambda>chunk conf. grand_loop_inner ar mem project conf image_stack angles coords
                    exper chunk (Some (stop_of chunk))) order conf = Inr m"
proof -
  let ?B = "grand_loop_cell ar mem project image_stack angles coords exper"
  let ?cells = "\<lambda>chunk. List.product [chunk ..< stop_of chunk] [0 ..< length angles]"
  have inner: "(\<lambda>chunk conf. grand_loop_inner ar mem project conf image_stack angles coords
                    exper chunk (Some (stop_of chunk))) = (\<lambda>chunk. for_each ?B (?cells chunk))"
    by (simp add: grand_loop_inner_def fun_eq_iff)
  have flat: "for_each (\<lambda>chunk. for_each ?B (?cells chunk)) xs conf
                = for_each ?B (concat (map ?cells xs)) conf" for xs
    by (rule for_each_concat)
  have sets: "set (concat (map ?cells order)) = set (concat (map ?cells chunks))"
    using same by simp
  from run have "for_each ?B (concat (map ?cells chunks)) conf = Inr m"
    unfolding inner flat .
  from for_each_cells_order [OF sets this]
  show ?thesis unfolding inner flat .
qed

subsection \<open>Chunk ranges\<close>

lemma xrange3_ranges_from:
  "0 < c \<Longrightarrow> s \<le> n \<Longrightarrow>
   concat (map (\<lambda>k. [k ..< min n (k + c)]) (xrange3 s n c)) = [s ..< n]"
proof (induction s n c rule: xrange3.induct)
  case (1 start stop step)
  show ?case
  proof (cases "stop \<le> start")
    case True
    with "1.prems" show ?thesis by (simp add: xrange3.simps)
  next
    case False
    let ?m = "min stop (start + step)"
    have le: "start \<le> ?m" "?m \<le> stop" using False by auto
    show ?thesis
    proof (cases "start + step \<le> stop")
      case True
      then have ih: "concat (map (\<lambda>k. [k ..< min stop (k + step)])
                       (xrange3 (start + step) stop step)) = [start + step ..< stop]"
        using "1.IH" "1.prems" False by simp
      have "[start ..< stop] = [start ..< start + step] @ [start + step ..< stop]"
        using upt_add_eq_append [of start "start + step" "stop - (start + step)"] True
        by simp
      with ih True False "1.prems" show ?thesis
        by (subst xrange3.simps) (simp add: min_def)
    next
      case no: False
      then have empty: "xrange3 (start + step) stop step = []"
        by (subst xrange3.simps) simp
      from no False "1.prems" show ?thesis
        by (subst xrange3.simps) (simp add: empty min_def)
    qed
  qed
qed

lemma chunk_ranges_partition:
  assumes "1 \<le> n" and "1 \<le> c" and "c \<le> n"
  shows "concat (serial_ranges n c) = [0 ..< n]
       \<and> concat (multiproc_ranges n n c) = [0 ..< n]
       \<and> distinct (concat (serial_ranges n c))
       \<and> set (concat (serial_ranges n c)) = {0 ..< n}"
proof -
  have c: "0 < c" using assms by simp
  have s: "concat (serial_ranges n c) = [0 ..< n]"
    unfolding serial_ranges_def chunk_range_def serial_chunk_stop_def
    using xrange3_ranges_from [OF c, of 0 n] by simp
  have m: "concat (multiproc_ranges n n c) = [0 ..< n]"
    unfolding multiproc_ranges_def chunk_range_def multiproc_chunk_stop_def
    using xrange3_ranges_from [OF c, of 0 n] by simp
  from s m show ?thesis by simp
qed

lemma xrange3_two_chunks: "xrange3 0 3 2 = [0, 2]"
  by (simp add: xrange3.simps)

text \<open>
  C4. The specification asks that the chunk ranges cover the voxel indices below the voxel
  count \<open>n\<close> once each and nothing else. In \<^verbatim>\<open>_grand_loop_precomp\<close> the count \<open>n\<close>
  is \<^verbatim>\<open>controller.limit('coords', len(test_crds))\<close>: it gives the chunk starts and
  the size of the matrix, and the serial branch cuts the last range at \<open>n\<close>.
  \<^verbatim>\<open>multiproc_inner_loop\<close> cuts at \<^verbatim>\<open>len(coords)\<close> instead. With 5 coordinates
  limited to 3 and chunks of 2 the serial ranges are \<open>[0, 1]\<close> and \<open>[2]\<close>, those of the
  worker are \<open>[0, 1]\<close> and \<open>[2, 3]\<close>: voxel 3 is visited although the count is 3. Lemma
  \<open>chunk_ranges_partition\<close> above shows that both rules give the partition when no limit
  is in effect.
\<close>

theorem pool_chunk_ranges_overrun_limited_count:
  "chunks_of 3 2 = Inr [0, 2]
   \<and> serial_ranges 3 2 = [[0, 1], [2]]
   \<and> multiproc_ranges 5 3 2 = [[0, 1], [2, 3]]
   \<and> concat (multiproc_ranges 5 3 2) \<noteq> [0 ..< 3]
   \<and> 3 \<in> set (concat (multiproc_ranges 5 3 2))"
  by (simp add: chunks_of_def serial_ranges_def multiproc_ranges_def xrange3_two_chunks
        chunk_range_def serial_chunk_stop_def multiproc_chunk_stop_def upt_rec)

subsection \<open>Entry point without a controller\<close>

text \<open>
  C10. With the default \<^verbatim>\<open>controller=None\<close>, \<^verbatim>\<open>get_simulate_diffractions\<close> raises
  \<^verbatim>\<open>AttributeError\<close> whatever the other arguments are: on a cache hit at
  \<^verbatim>\<open>controller.handle_result\<close>, on a cache miss already at \<^verbatim>\<open>controller.start\<close>
  inside the simulation. With a controller and a cache hit the call of
  \<^verbatim>\<open>handle_result\<close> is all that happens: the cached stack is returned unless the result
  handler raises, as it is with a handler that only records.
\<close>

theorem get_simulate_diffractions_without_controller_raises:
  "get_simulate_diffractions ar mem reflections grain_params exper cache save_fails None
     = Inl AttributeError
   \<and> get_simulate_diffractions ar mem reflections grain_params exper (Some image_stack)
       save_fails (Some k)
     = then_do (delegate k (po_rh k) (Handle_result ''image_stack''))
         (\<lambda>ob. Inr (image_stack, Some (k\<lparr>po_rh := ob\<rparr>)))
   \<and> get_simulate_diffractions ar mem reflections grain_params exper (Some image_stack)
       save_fails (Some (k\<lparr>delegate := recording\<rparr>))
     = Inr (image_stack,
            Some (k\<lparr>po_rh := po_rh k @ [Handle_result ''image_stack''],
                   delegate := recording\<rparr>))"
  by (cases cache)
     (simp_all add: get_simulate_diffractions_def simulate_diffractions_def invoke_def
        then_do_def recording_def split: sum.splits)

subsection \<open>Beam rotation matrix with degenerate vectors\<close>

lemma assign_Ze_unbound:
  "bvec_mag \<noteq> 0 \<Longrightarrow> assign_Ze (i # rest) bvec_l bvec_mag None = Inl UnboundLocalError"
  by (simp add: then_do_def fdiv_def set_item_def)

lemma make_beam_rmat_never_returns:
  "\<exists>e. make_beam_rmat junk bvec_l evec_l = Inl e"
proof (cases "sqrt ((item bvec_l 0)\<^sup>2 + (item bvec_l 1)\<^sup>2 + (item bvec_l 2)\<^sup>2) = 0")
  case True
  then show ?thesis
    by (simp add: make_beam_rmat_def then_do_def fdiv_def)
next
  case False
  then show ?thesis
    by (simp add: make_beam_rmat_def then_do_def fdiv_def set_item_def)
qed

text \<open>
  C9. The specification asks that degenerate vectors never make \<^verbatim>\<open>make_beam_rmat\<close> raise. The
  function raises: for the beam vector \<open>(0, 0, 1)\<close> and the zero eta vector the first
  store \<^verbatim>\<open>out[0, 2] = ...\<close> finds \<^verbatim>\<open>out\<close> unbound.
\<close>

theorem make_beam_rmat_zero_eta_raises:
  "make_beam_rmat junk (0, 0, 1) (0, 0, 0) = Inl UnboundLocalError"
  by (simp add: make_beam_rmat_def then_do_def fdiv_def set_item_def item_def
        at0_def at1_def at2_def)

subsection \<open>Checking result handler\<close>

lemma checking_verdict:
  assumes "key \<notin> {''experiment'', ''image_stack''}"
      and "reference_results key = Some reference"
      and "allclose (take (min (length reference) (length val)) val)
             (take (min (length reference) (length val)) reference) = Inr passed"
  shows "handle_result allclose reference_results key val =
           (if \<not> passed then [(WARN, Verdict key FAIL), (WARN, Verdict key FAIL)]
            else if length val > min (length reference) (length val)
            then [(WARN, Verdict key PARTIAL_PASS)]
            else [(INFO, Verdict key FULL_PASS)])
       \<and> (FAIL \<in> set (verdicts (handle_result allclose reference_results key val))) = (\<not> passed)
       \<and> (PARTIAL_PASS \<in> set (verdicts (handle_result allclose reference_results key val)))
           = (passed \<and> length val > min (length reference) (length val))
       \<and> (FULL_PASS \<in> set (verdicts (handle_result allclose reference_results key val)))
           = (passed \<and> \<not> length val > min (length reference) (length val))"
proof -
  have run: "handle_result allclose reference_results key val =
           (if \<not> passed then [(WARN, Verdict key FAIL), (WARN, Verdict key FAIL)]
            else if length val > min (length reference) (length val)
            then [(WARN, Verdict key PARTIAL_PASS)]
            else [(INFO, Verdict key FULL_PASS)])"
    using assms by (simp add: handle_result_def Let_def)
  show ?thesis unfolding run by (auto simp add: min_def)
qed

lemma np_allclose_mismatch:
  "\<not> broadcasts wa wb \<Longrightarrow> np_allclose isclose wa wb a b = Inl ValueError"
  by (simp add: np_allclose_def)

lemma np_allclose_same_shape:
  "length a = length b \<Longrightarrow> 1 < length a \<Longrightarrow> 1 < w \<Longrightarrow>
   np_allclose isclose w w a b =
     Inr (\<forall>i < length a. \<forall>j < w. isclose (a ! i ! j) (b ! i ! j))"
  by (auto simp add: np_allclose_def broadcasts_def list_all_iff)

text \<open>
  C8. The documentation of the handler counts a result that differs from the reference as
  a FAIL, and the specification lets every checked key with a reference end in one of FAIL,
  PARTIAL PASS and FULL PASS. The length the handler compares is that of the first axis; for
  the confidence matrix of two grains, computed for 2 coordinates and checked against a
  reference computed for 3, both arrays have 2 rows, the comparison window is 2 rows, and
  \<^verbatim>\<open>np.allclose\<close> raises on the shapes \<open>(2, 2)\<close> and \<open>(2, 3)\<close>. The handler catches
  the exception and logs that checking failed: it reports none of the three verdicts. Lemma
  \<open>checking_verdict\<close> above shows that the verdict is the specified one whenever
  \<^verbatim>\<open>np.allclose\<close> returns a truth value.
\<close>

theorem mismatched_widths_give_no_verdict:
  "handle_result (np_allclose isclose 2 3)
      [''confidence'' \<mapsto> [[1, 1, 1], [1, 1, 1 :: real]]] ''confidence'' [[1, 1], [1, 1]]
     = [(ERROR, Failure_trying_to_check ''confidence'')]
   \<and> verdicts (handle_result (np_allclose isclose 2 3)
        [''confidence'' \<mapsto> [[1, 1, 1], [1, 1, 1 :: real]]] ''confidence'' [[1, 1], [1, 1]])
     = []"
  by (simp add: handle_result_def np_allclose_def broadcasts_def)

subsection \<open>Controller calls\<close>

lemma then_do_return: "then_do (Inr v) f = f v"
  by (simp add: then_do_def)

lemma then_do_raise: "then_do (Inl e) f = Inl e"
  by (simp add: then_do_def)

lemma invoke_total:
  assumes "\<forall>ob c. \<exists>ob'. delegate k ob c = Inr ob'"
  shows "\<exists>k'. invoke (Some k) (Update v) = Inr (Some k')
           \<and> delegate k' = delegate k \<and> timing k' = timing k"
    and "\<exists>k'. invoke (Some k) (Start name count) = Inr (Some k')
           \<and> delegate k' = delegate k \<and> timing k' = timing k @ [(name, count)]"
    and "timing k \<noteq> [] \<Longrightarrow> fst (last (timing k)) = name \<Longrightarrow> snd (last (timing k)) \<noteq> 0 \<Longrightarrow>
         \<exists>k'. invoke (Some k) (Finish name) = Inr (Some k')"
    and "timing k \<noteq> [] \<Longrightarrow> fst (last (timing k)) = name \<Longrightarrow> snd (last (timing k)) = 0 \<Longrightarrow>
         invoke (Some k) (Finish name) = Inl ZeroDivisionError"
proof -
  from assms obtain ob1 where o1: "delegate k (po_rh k) (Update v) = Inr ob1" by blast
  then show "\<exists>k'. invoke (Some k) (Update v) = Inr (Some k')
           \<and> delegate k' = delegate k \<and> timing k' = timing k"
    by (simp add: invoke_def then_do_def)
  from assms obtain ob2 where o2: "delegate k (po_rh k) (Start name count) = Inr ob2" by blast
  then show "\<exists>k'. invoke (Some k) (Start name count) = Inr (Some k')
           \<and> delegate k' = delegate k \<and> timing k' = timing k @ [(name, count)]"
    by (simp add: invoke_def then_do_def)
  from assms obtain ob3 where o3: "delegate k (po_rh k) (Finish name) = Inr ob3" by blast
  then show "timing k \<noteq> [] \<Longrightarrow> fst (last (timing k)) = name \<Longrightarrow> snd (last (timing k)) \<noteq> 0 \<Longrightarrow>
         \<exists>k'. invoke (Some k) (Finish name) = Inr (Some k')"
    by (simp add: invoke_def then_do_def)
  from o3 show "timing k \<noteq> [] \<Longrightarrow> fst (last (timing k)) = name \<Longrightarrow>
         snd (last (timing k)) = 0 \<Longrightarrow> invoke (Some k) (Finish name) = Inl ZeroDivisionError"
    by (simp add: invoke_def then_do_def)
qed

lemma dilate_frames_effect:
  assumes "dst \<noteq> src"
      and "heap s src = Some img"
      and "heap s dst = Some dil"
      and "length dil = length img"
      and "\<forall>i \<in> set is. i < length img"
      and "dilate_frames dilation shp src dst is (s, ctl) = Inr (s', ctl')"
  shows "\<exists>dil'. heap s' src = Some img \<and> heap s' dst = Some dil'
           \<and> length dil' = length img
           \<and> (\<forall>a. a \<noteq> dst \<longrightarrow> heap s' a = heap s a)
           \<and> next_addr s' = next_addr s
           \<and> (\<forall>i < length img. dil' ! i = (if i \<in> set is then dilation shp (img ! i) else dil ! i))"
  using assms
proof (induction "is" arbitrary: s ctl dil)
  case Nil
  then show ?case by simp
next
  case (Cons i rest)
  let ?s1 = "s\<lparr>heap := (heap s)(dst \<mapsto> dil[i := dilation shp (img ! i)])\<rparr>"
  have i: "i < length img" using Cons.prems by simp
  have step: "dilate_frame dilation shp src dst i s = Inr ?s1"
    using Cons.prems i by (simp add: dilate_frame_def)
  have "then_do (invoke ctl (Update (i + 1)))
          (\<lambda>ctl1. dilate_frames dilation shp src dst rest (?s1, ctl1)) = Inr (s', ctl')"
    using Cons.prems(6) by (simp add: step then_do_def)
  from then_do_Inr [OF this] obtain ctl1 where
    rest: "dilate_frames dilation shp src dst rest (?s1, ctl1) = Inr (s', ctl')"
    by blast
  have p2: "heap ?s1 src = Some img" using Cons.prems by simp
  have p3: "heap ?s1 dst = Some (dil[i := dilation shp (img ! i)])" by simp
  have p4: "length (dil[i := dilation shp (img ! i)]) = length img" using Cons.prems by simp
  have p5: "\<forall>j \<in> set rest. j < length img" using Cons.prems by simp
  from Cons.IH [OF Cons.prems(1) p2 p3 p4 p5 rest]
  obtain dil' where
    h1: "heap s' src = Some img" and h2: "heap s' dst = Some dil'"
    and h3: "length dil' = length img"
    and h4: "\<forall>a. a \<noteq> dst \<longrightarrow> heap s' a = heap ?s1 a"
    and h5: "next_addr s' = next_addr ?s1"
    and h6: "\<forall>j < length img. dil' ! j =
               (if j \<in> set rest then dilation shp (img ! j)
                else dil[i := dilation shp (img ! i)] ! j)"
    by blast
  have h4': "\<forall>a. a \<noteq> dst \<longrightarrow> heap s' a = heap s a" using h4 by simp
  have h5': "next_addr s' = next_addr s" using h5 by simp
  have h6': "\<forall>j < length img. dil' ! j =
               (if j \<in> set (i # rest) then dilation shp (img ! j) else dil ! j)"
  proof (intro allI impI)
    fix j assume j: "j < length img"
    show "dil' ! j = (if j \<in> set (i # rest) then dilation shp (img ! j) else dil ! j)"
      using h6 j Cons.prems(4) by (cases "j = i") simp_all
  qed
  show ?case using h1 h2 h3 h4' h5' h6' by blast
qed

lemma dilate_frames_total:
  assumes "dst \<noteq> src"
      and "heap s src = Some img"
      and "heap s dst = Some dil"
      and "length dil = length img"
      and "\<forall>i \<in> set is. i < length img"
      and "\<forall>ob c. \<exists>ob'. delegate k ob c = Inr ob'"
  shows "\<exists>s' k'. dilate_frames dilation shp src dst is (s, Some k) = Inr (s', Some k')
           \<and> delegate k' = delegate k \<and> timing k' = timing k"
  using assms
proof (induction "is" arbitrary: s k dil)
  case Nil
  then show ?case by simp
next
  case (Cons i rest)
  let ?s1 = "s\<lparr>heap := (heap s)(dst \<mapsto> dil[i := dilation shp (img ! i)])\<rparr>"
  have i: "i < length img" using Cons.prems by simp
  have step: "dilate_frame dilation shp src dst i s = Inr ?s1"
    using Cons.prems i by (simp add: dilate_frame_def)
  from invoke_total(1) [OF Cons.prems(6), of "Suc i"] obtain k1 where
    k1: "invoke (Some k) (Update (Suc i)) = Inr (Some k1)"
    and d1: "delegate k1 = delegate k" and t1: "timing k1 = timing k"
    by blast
  have unfold: "dilate_frames dilation shp src dst (i # rest) (s, Some k)
                  = dilate_frames dilation shp src dst rest (?s1, Some k1)"
    by (simp add: step then_do_def k1)
  have p2: "heap ?s1 src = Some img" using Cons.prems by simp
  have p3: "heap ?s1 dst = Some (dil[i := dilation shp (img ! i)])" by simp
  have p4: "length (dil[i := dilation shp (img ! i)]) = length img" using Cons.prems by simp
  have p5: "\<forall>j \<in> set rest. j < length img" using Cons.prems by simp
  have p6: "\<forall>ob c. \<exists>ob'. delegate k1 ob c = Inr ob'" using Cons.prems(6) d1 by simp
  from Cons.IH [OF Cons.prems(1) p2 p3 p4 p5 p6]
  obtain s' k' where
    r: "dilate_frames dilation shp src dst rest (?s1, Some k1) = Inr (s', Some k')"
    and d: "delegate k' = delegate k1" and t: "timing k' = timing k1"
    by blast
  show ?case unfolding unfold using r d t d1 t1 by simp
qed

subsection \<open>Dilation pass\<close>

lemma dilation_result:
  assumes "\<forall>a. next_addr s \<le> a \<longrightarrow> heap s a = None"
      and "heap s image_stack = Some img"
      and "dilate_image_stack dilation junk exper image_stack (s, ctl)
             = Inr (image_stack_dilated, s', ctl')"
  shows "image_stack_dilated \<noteq> image_stack
       \<and> heap s image_stack_dilated = None
       \<and> heap s' image_stack = Some img
       \<and> (\<forall>a. a \<noteq> image_stack_dilated \<longrightarrow> heap s' a = heap s a)
       \<and> heap s' image_stack_dilated
           = Some (map (dilation (2 * row_dilation exper + 1, 2 * col_dilation exper + 1)) img)"
proof -
  let ?dst = "next_addr s"
  let ?shp = "(2 * row_dilation exper + 1, 2 * col_dilation exper + 1)"
  let ?fresh = "map (map (map (\<lambda>_. junk))) img"
  let ?s1 = "s\<lparr>heap := (heap s)(?dst \<mapsto> ?fresh), next_addr := Suc ?dst\<rparr>"
  have fresh: "heap s ?dst = None" using assms(1) by simp
  have ne: "?dst \<noteq> image_stack" using fresh assms(2) by auto
  have alloc: "empty_like junk image_stack s = Inr (?dst, ?s1)"
    using assms(2) by (simp add: empty_like_def)
  have src1: "heap ?s1 image_stack = Some img" using ne assms(2) by simp
  have dst1: "heap ?s1 ?dst = Some ?fresh" by simp
  have len: "length ?fresh = length img" by simp
  have idx: "\<forall>i \<in> set [0 ..< length img]. i < length img" by simp
  have "then_do (invoke ctl (Start ''dilate image_stack'' (length img))) (\<lambda>ctl1.
          then_do (dilate_frames dilation ?shp image_stack ?dst [0 ..< length img] (?s1, ctl1))
            (\<lambda>(s2, ctl2).
          then_do (invoke ctl2 (Finish ''dilate image_stack'')) (\<lambda>ctl3.
          Inr (?dst, s2, ctl3))))
        = Inr (image_stack_dilated, s', ctl')"
    using assms(3) alloc ne ne [symmetric] assms(2)
    by (simp add: dilate_image_stack_def then_do_return Let_def)
  from then_do_Inr [OF this] obtain ctl1 where
    "then_do (dilate_frames dilation ?shp image_stack ?dst [0 ..< length img] (?s1, ctl1))
            (\<lambda>(s2, ctl2).
          then_do (invoke ctl2 (Finish ''dilate image_stack'')) (\<lambda>ctl3.
          Inr (?dst, s2, ctl3)))
        = Inr (image_stack_dilated, s', ctl')"
    by blast
  from then_do_Inr [OF this] obtain st2 where
    frames: "dilate_frames dilation ?shp image_stack ?dst [0 ..< length img] (?s1, ctl1) = Inr st2"
    and fin: "(case st2 of (s2, ctl2) \<Rightarrow>
                 then_do (invoke ctl2 (Finish ''dilate image_stack'')) (\<lambda>ctl3.
                   Inr (?dst, s2, ctl3))) = Inr (image_stack_dilated, s', ctl')"
    by blast
  obtain s2 ctl2 where st2: "st2 = (s2, ctl2)" by (cases st2)
  from fin st2 have
    "then_do (invoke ctl2 (Finish ''dilate image_stack'')) (\<lambda>ctl3. Inr (?dst, s2, ctl3))
       = Inr (image_stack_dilated, s', ctl')"
    by simp
  from then_do_Inr [OF this] have res: "image_stack_dilated = ?dst" "s' = s2" by auto
  from dilate_frames_effect [OF ne src1 dst1 len idx frames [unfolded st2]]
  obtain dil' where
    h1: "heap s2 image_stack = Some img" and h2: "heap s2 ?dst = Some dil'"
    and h3: "length dil' = length img"
    and h4: "\<forall>a. a \<noteq> ?dst \<longrightarrow> heap s2 a = heap ?s1 a"
    and h6: "\<forall>j < length img. dil' ! j =
               (if j \<in> set [0 ..< length img] then dilation ?shp (img ! j) else ?fresh ! j)"
    by blast
  have dil': "dil' = map (dilation ?shp) img"
    using h3 h6 by (intro nth_equalityI) simp_all
  have h4': "\<forall>a. a \<noteq> ?dst \<longrightarrow> heap s2 a = heap s a" using h4 by simp
  show ?thesis unfolding res using ne fresh h1 h2 h4' dil' by blast
qed

lemma dilation_completes:
  assumes "\<forall>a. next_addr s \<le> a \<longrightarrow> heap s a = None"
      and "heap s image_stack = Some img"
      and "\<forall>ob c. \<exists>ob'. delegate k ob c = Inr ob'"
  shows "(img \<noteq> [] \<longrightarrow>
            (\<exists>image_stack_dilated s' ctl'.
               dilate_image_stack dilation junk exper image_stack (s, Some k)
                 = Inr (image_stack_dilated, s', ctl')))
       \<and> (img = [] \<longrightarrow>
            dilate_image_stack dilation junk exper image_stack (s, Some k)
              = Inl ZeroDivisionError)"
proof -
  let ?dst = "next_addr s"
  let ?shp = "(2 * row_dilation exper + 1, 2 * col_dilation exper + 1)"
  let ?fresh = "map (map (map (\<lambda>_. junk))) img"
  let ?s1 = "s\<lparr>heap := (heap s)(?dst \<mapsto> ?fresh), next_addr := Suc ?dst\<rparr>"
  have fresh: "heap s ?dst = None" using assms(1) by simp
  have ne: "?dst \<noteq> image_stack" using fresh assms(2) by auto
  have alloc: "empty_like junk image_stack s = Inr (?dst, ?s1)"
    using assms(2) by (simp add: empty_like_def)
  have src1: "heap ?s1 image_stack = Some img" using ne assms(2) by simp
  have dst1: "heap ?s1 ?dst = Some ?fresh" by simp
  have len: "length ?fresh = length img" by simp
  have idx: "\<forall>i \<in> set [0 ..< length img]. i < length img" by simp
  from invoke_total(2) [OF assms(3), of "''dilate image_stack''" "length img"] obtain k1 where
    k1: "invoke (Some k) (Start ''dilate image_stack'' (length img)) = Inr (Some k1)"
    and d1: "delegate k1 = delegate k"
    and t1: "timing k1 = timing k @ [(''dilate image_stack'', length img)]"
    by blast
  have tot1: "\<forall>ob c. \<exists>ob'. delegate k1 ob c = Inr ob'" using assms(3) d1 by simp
  from dilate_frames_total [OF ne src1 dst1 len idx tot1, of dilation ?shp] obtain s2 k2 where
    frames: "dilate_frames dilation ?shp image_stack ?dst [0 ..< length img] (?s1, Some k1)
               = Inr (s2, Some k2)"
    and d2: "delegate k2 = delegate k1" and t2: "timing k2 = timing k1"
    by blast
  have tot2: "\<forall>ob c. \<exists>ob'. delegate k2 ob c = Inr ob'" using tot1 d2 by simp
  have top: "timing k2 \<noteq> []" "fst (last (timing k2)) = ''dilate image_stack''"
    "snd (last (timing k2)) = length img"
    using t1 t2 by simp_all
  have run: "dilate_image_stack dilation junk exper image_stack (s, Some k)
               = then_do (invoke (Some k2) (Finish ''dilate image_stack''))
                   (\<lambda>ctl3. Inr (?dst, s2, ctl3))"
    using alloc ne ne [symmetric] assms(2) k1 frames
    by (simp add: dilate_image_stack_def then_do_return Let_def)
  have a: "img \<noteq> [] \<longrightarrow>
            (\<exists>image_stack_dilated s' ctl'.
               dilate_image_stack dilation junk exper image_stack (s, Some k)
                 = Inr (image_stack_dilated, s', ctl'))"
  proof
    assume "img \<noteq> []"
    then have "snd (last (timing k2)) \<noteq> 0" using top(3) by simp
    from invoke_total(3) [OF tot2 top(1) top(2) this] obtain k3 where
      "invoke (Some k2) (Finish ''dilate image_stack'') = Inr (Some k3)" by blast
    then show "\<exists>image_stack_dilated s' ctl'.
               dilate_image_stack dilation junk exper image_stack (s, Some k)
                 = Inr (image_stack_dilated, s', ctl')"
      unfolding run by (simp add: then_do_def)
  qed
  have b: "img = [] \<longrightarrow>
            dilate_image_stack dilation junk exper image_stack (s, Some k)
              = Inl ZeroDivisionError"
  proof
    assume "img = []"
    then have "snd (last (timing k2)) = 0" using top(3) by simp
    from invoke_total(4) [OF tot2 top(1) top(2) this]
    show "dilate_image_stack dilation junk exper image_stack (s, Some k)
              = Inl ZeroDivisionError"
      unfolding run by (simp add: then_do_def)
  qed
  from a b show ?thesis by blast
qed

text \<open>
  C7. In a store whose unallocated addresses are empty, whenever the dilation pass of
  \<^verbatim>\<open>_grand_loop_precomp\<close> completes, its result is at an address that was free before,
  hence different from the address of the image stack; the image stack and every other array
  allocated before hold the same content after the pass, and the new array holds the
  dilation of each frame. The pass does complete, with this outcome, when the progress
  observer never raises and the stack has at least one frame (lemma \<open>dilation_completes\<close>
  above: with no frame, \<^verbatim>\<open>controller.finish\<close> divides by the count 0).
\<close>

theorem dilation_leaves_source_untouched:
  assumes "\<forall>a. next_addr s \<le> a \<longrightarrow> heap s a = None"
      and "heap s image_stack = Some img"
  shows "(dilate_image_stack dilation junk exper image_stack (s, ctl)
            = Inr (image_stack_dilated, s', ctl') \<longrightarrow>
          image_stack_dilated \<noteq> image_stack
          \<and> heap s image_stack_dilated = None
          \<and> heap s' image_stack = Some img
          \<and> (\<forall>a. a \<noteq> image_stack_dilated \<longrightarrow> heap s' a = heap s a)
          \<and> heap s' image_stack_dilated
              = Some (map (dilation (2 * row_dilation exper + 1, 2 * col_dilation exper + 1))
                        img))
       \<and> ((\<forall>ob c. \<exists>ob'. delegate k ob c = Inr ob') \<and> img \<noteq> [] \<longrightarrow>
            (\<exists>dilated t k'.
               dilate_image_stack dilation junk exper image_stack (s, Some k)
                 = Inr (dilated, t, k')
               \<and> dilated \<noteq> image_stack
               \<and> heap s dilated = None
               \<and> heap t image_stack = Some img
               \<and> (\<forall>a. a \<noteq> dilated \<longrightarrow> heap t a = heap s a)
               \<and> heap t dilated
                   = Some (map (dilation (2 * row_dilation exper + 1,
                                          2 * col_dilation exper + 1)) img)))"
proof -
  have a: "dilate_image_stack dilation junk exper image_stack (s, ctl)
            = Inr (image_stack_dilated, s', ctl') \<longrightarrow>
          image_stack_dilated \<noteq> image_stack
          \<and> heap s image_stack_dilated = None
          \<and> heap s' image_stack = Some img
          \<and> (\<forall>a. a \<noteq> image_stack_dilated \<longrightarrow> heap s' a = heap s a)
          \<and> heap s' image_stack_dilated
              = Some (map (dilation (2 * row_dilation exper + 1, 2 * col_dilation exper + 1))
                        img)"
    using dilation_result [OF assms] by blast
  have b: "(\<forall>ob c. \<exists>ob'. delegate k ob c = Inr ob') \<and> img \<noteq> [] \<longrightarrow>
            (\<exists>dilated t k'.
               dilate_image_stack dilation junk exper image_stack (s, Some k)
                 = Inr (dilated, t, k')
               \<and> dilated \<noteq> image_stack
               \<and> heap s dilated = None
               \<and> heap t image_stack = Some img
               \<and> (\<forall>a. a \<noteq> dilated \<longrightarrow> heap t a = heap s a)
               \<and> heap t dilated
                   = Some (map (dilation (2 * row_dilation exper + 1,
                                          2 * col_dilation exper + 1)) img))"
  proof
    assume h: "(\<forall>ob c. \<exists>ob'. delegate k ob c = Inr ob') \<and> img \<noteq> []"
    with dilation_completes [OF assms, of k dilation junk exper] obtain dilated t k' where
      run: "dilate_image_stack dilation junk exper image_stack (s, Some k)
              = Inr (dilated, t, k')"
      by blast
    from dilation_result [OF assms run] run
    show "\<exists>dilated t k'.
               dilate_image_stack dilation junk exper image_stack (s, Some k)
                 = Inr (dilated, t, k')
               \<and> dilated \<noteq> image_stack
               \<and> heap s dilated = None
               \<and> heap t image_stack = Some img
               \<and> (\<forall>a. a \<noteq> dilated \<longrightarrow> heap t a = heap s a)
               \<and> heap t dilated
                   = Some (map (dilation (2 * row_dilation exper + 1,
                                          2 * col_dilation exper + 1)) img)"
      by blast
  qed
  from a b show ?thesis by blast
qed

theorem dilation_leaves_source_untouched_witness:
  "\<exists>image_stack_dilated s' ctl'.
     dilate_image_stack (\<lambda>shp frame. frame) False
        \<lparr>n_grains = 1, rMat_c = [()], nframes = 1, nrows = 1, ncols = 1,
         exp_base = ((0, 0), (0, 0), (0, 0)) :: double \<times> double \<times> double,
         exp_inv_deltas = ((1, 0), (1, 0), (1, 0)), exp_clip_vals = (1, 1),
         row_dilation = 0, col_dilation = 0\<rparr>
        0
        (\<lparr>heap = [0 \<mapsto> [[[True]]]], next_addr = 1\<rparr>,
         Some \<lparr>po_rh = [], delegate = recording, timing = [], limit_coords = (\<lambda>n. n),
               get_chunk_size = 100, get_process_count = 8\<rparr>)
       = Inr (image_stack_dilated, s', ctl')
     \<and> image_stack_dilated \<noteq> 0
     \<and> heap s' 0 = Some [[[True]]]"
proof -
  have wf: "\<forall>a. next_addr \<lparr>heap = [0 \<mapsto> [[[True]]]], next_addr = 1\<rparr> \<le> a \<longrightarrow>
              heap \<lparr>heap = [0 \<mapsto> [[[True]]]], next_addr = 1\<rparr> a = None"
    by simp
  have src: "heap \<lparr>heap = [0 \<mapsto> [[[True]]]], next_addr = 1\<rparr> 0 = Some [[[True]]]"
    by simp
  have tot: "(\<forall>ob c. \<exists>ob'. delegate \<lparr>po_rh = [], delegate = recording, timing = [],
                 limit_coords = (\<lambda>n. n), get_chunk_size = 100, get_process_count = 8\<rparr> ob c
                = Inr ob') \<and> [[[True]]] \<noteq> []"
    by (simp add: recording_def)
  from dilation_leaves_source_untouched [OF wf src,
         where k = "\<lparr>po_rh = [], delegate = recording, timing = [],
                 limit_coords = (\<lambda>n. n), get_chunk_size = 100, get_process_count = 8\<rparr>"]
       tot
  show ?thesis by blast
qed

subsection \<open>Serial path and worker pool\<close>

lemma xrange3_one_chunk: "xrange3 0 (Suc 0) 100 = [0]"
  by (simp add: xrange3.simps)

text \<open>
  C5. The specification asks that the serial path and the pool give the same confidence
  matrix for the same inputs and chunk size. They do not when the controller limits the
  number of coordinates: with two test coordinates limited to one and the chunk size 100,
  the serial path (one process) returns the matrix of one column, while in the pool (eight
  processes) \<^verbatim>\<open>multiproc_inner_loop\<close> takes its \<^verbatim>\<open>n_coords\<close> from the length of the
  coordinate array, runs the chunk up to voxel 2 and fails with \<^verbatim>\<open>IndexError\<close> when it
  stores into column 1.
\<close>

theorem limited_run_serial_and_pool_differ:
  "grand_loop ieee mem (\<lambda>angs rC crd. [((0, 0), (0, 0))]) (\<lambda>chunks. chunks) [[[True]]]
      [[((0, 0), (0, 0), (0, 0))]] [(), ()]
      \<lparr>n_grains = 1, rMat_c = [()], nframes = 1, nrows = 1, ncols = 1,
       exp_base = ((0, 0), (0, 0), (0, 0)), exp_inv_deltas = ((1, 0), (1, 0), (1, 0)),
       exp_clip_vals = (1, 1), row_dilation = 0, col_dilation = 0\<rparr>
      (Some \<lparr>po_rh = [], delegate = recording, timing = [], limit_coords = (\<lambda>n. min n 1),
             get_chunk_size = 100, get_process_count = 1\<rparr>)
     = Inr ([[Some 1]],
            Some \<lparr>po_rh = [Start ''grand_loop'' 1, Update 1, Finish ''grand_loop'',
                           Handle_result ''confidence''],
                  delegate = recording, timing = [], limit_coords = (\<lambda>n. min n 1),
                  get_chunk_size = 100, get_process_count = 1\<rparr>)
   \<and> grand_loop ieee mem (\<lambda>angs rC crd. [((0, 0), (0, 0))]) (\<lambda>chunks. chunks) [[[True]]]
      [[((0, 0), (0, 0), (0, 0))]] [(), ()]
      \<lparr>n_grains = 1, rMat_c = [()], nframes = 1, nrows = 1, ncols = 1,
       exp_base = ((0, 0), (0, 0), (0, 0)), exp_inv_deltas = ((1, 0), (1, 0), (1, 0)),
       exp_clip_vals = (1, 1), row_dilation = 0, col_dilation = 0\<rparr>
      (Some \<lparr>po_rh = [], delegate = recording, timing = [], limit_coords = (\<lambda>n. min n 1),
             get_chunk_size = 100, get_process_count = 8\<rparr>)
     = Inl IndexError"
proof -
  define project where
    "project = (\<lambda>(angs :: (double \<times> double \<times> double) list) (rC :: unit) (crd :: unit).
                    [((0, 0), (0, 0)) :: double \<times> double])"
  define exper :: "(double, unit) nf_experiment" where
    "exper = \<lparr>n_grains = 1, rMat_c = [()], nframes = 1, nrows = 1, ncols = 1,
       exp_base = ((0, 0), (0, 0), (0, 0)), exp_inv_deltas = ((1, 0), (1, 0), (1, 0)),
       exp_clip_vals = (1, 1), row_dilation = 0, col_dilation = 0\<rparr>"
  have fields: "rMat_c exper = [()]" "exp_base exper = ((0, 0), (0, 0), (0, 0))"
    "exp_inv_deltas exper = ((1, 0), (1, 0), (1, 0))" "exp_clip_vals exper = (1, 1)"
    "n_grains exper = Suc 0"
    by (simp_all add: exper_def)
  have cell: "grand_loop_cell ieee mem project [[[True]]] [[((0, 0), (0, 0), (0, 0))]] [(), ()]
                exper (i, 0) conf
                 = (if i < 2 then set_cell conf 0 i 1 else Inl IndexError)" for conf i
    by (simp add: grand_loop_cell_def cell_confidence_def then_do_def get_item_def
          lit_voxel_confidence fields project_def)
  have serial: "grand_loop_inner ieee mem project [[None]] [[[True]]]
                  [[((0, 0), (0, 0), (0, 0))]] [(), ()] exper 0
                  (Some (serial_chunk_stop (Suc 0) 100 0)) = Inr [[Some 1]]"
    by (simp add: grand_loop_inner_def serial_chunk_stop_def cell then_do_def set_cell_def)
  have two: "[0 ..< 2] = [0, Suc 0]" by (simp add: upt_rec)
  have pool: "grand_loop_inner ieee mem project [[Some 0]] [[[True]]]
                  [[((0, 0), (0, 0), (0, 0))]] [(), ()] exper 0
                  (Some (multiproc_chunk_stop (length [(), ()]) 100 0)) = Inl IndexError"
    by (simp add: grand_loop_inner_def multiproc_chunk_stop_def two cell then_do_def
          set_cell_def)
  have run1: "grand_loop ieee mem project (\<lambda>chunks. chunks) [[[True]]]
      [[((0, 0), (0, 0), (0, 0))]] [(), ()] exper
      (Some \<lparr>po_rh = [], delegate = recording, timing = [], limit_coords = (\<lambda>n. min n 1),
             get_chunk_size = 100, get_process_count = 1\<rparr>)
     = Inr ([[Some 1]],
            Some \<lparr>po_rh = [Start ''grand_loop'' 1, Update 1, Finish ''grand_loop'',
                           Handle_result ''confidence''],
                  delegate = recording, timing = [], limit_coords = (\<lambda>n. min n 1),
                  get_chunk_size = 100, get_process_count = 1\<rparr>)"
    using serial
    by (simp add: grand_loop_def chunks_of_def xrange3_one_chunk then_do_def invoke_def
          recording_def serial_chunk_def fields)
  have run8: "grand_loop ieee mem project (\<lambda>chunks. chunks) [[[True]]]
      [[((0, 0), (0, 0), (0, 0))]] [(), ()] exper
      (Some \<lparr>po_rh = [], delegate = recording, timing = [], limit_coords = (\<lambda>n. min n 1),
             get_chunk_size = 100, get_process_count = 8\<rparr>)
     = Inl IndexError"
    using pool
    by (simp add: grand_loop_def chunks_of_def xrange3_one_chunk then_do_def invoke_def
          recording_def multiproc_chunk_def fields)
  show ?thesis using run1 run8 unfolding project_def exper_def by blast
qed

end
